theory Spec2Isabelle
  imports Main "HOL-Library.Word"
begin

unbundle bit_operations_syntax

section \<open>Common types\<close>

type_synonym vaddr_t = "64 word"
type_synonym vsize_t = "64 word"
type_synonym uintptr_t = "64 word"

text \<open>
  Modelled from the spec: the \<open>ASSERT(cond, fmt, ...)\<close> macro is declared in headers that
  are not among the source files modelled here (\<open>utils.h\<close> of the hypervisor, \<open>common.h\<close> of the
  kernel). The spec describes a failed assertion as fatal: the operation is aborted with a
  descriptive error and yields no value. A failed assertion is the result
  \<open>Inl (AssertFailed fmt)\<close>, carrying the format string of the assertion; everything that
  follows the assertion in the source is not executed.

  \<open>OutOfRange\<close> marks an index past the end of a \<open>std::vector\<close>, which the source does
  not check and C++ leaves undefined.
\<close>

datatype error = AssertFailed string | OutOfRange

section \<open>kernel/src/x86/page_table.h\<close>

subsection \<open>The index macros\<close>

definition PTL4_SHIFT :: nat where "PTL4_SHIFT = 39"
definition PTL4_BITS :: nat where "PTL4_BITS = 9"
definition PTL4_SIZE :: "64 word" where "PTL4_SIZE = push_bit PTL4_SHIFT 1"
definition PTL4_MASK :: "64 word" where "PTL4_MASK = NOT (PTL4_SIZE - 1)"
definition PTRS_PER_PTL4 :: "64 word" where "PTRS_PER_PTL4 = push_bit PTL4_BITS 1"
definition PTL4_INDEX :: "64 word \<Rightarrow> 64 word" where
  "PTL4_INDEX addr = (drop_bit PTL4_SHIFT addr) AND (PTRS_PER_PTL4 - 1)"

definition PTL3_SHIFT :: nat where "PTL3_SHIFT = 30"
definition PTL3_BITS :: nat where "PTL3_BITS = 9"
definition PTL3_SIZE :: "64 word" where "PTL3_SIZE = push_bit PTL3_SHIFT 1"
definition PTL3_MASK :: "64 word" where "PTL3_MASK = NOT (PTL3_SIZE - 1)"
definition PTRS_PER_PTL3 :: "64 word" where "PTRS_PER_PTL3 = push_bit PTL3_BITS 1"
definition PTL3_INDEX :: "64 word \<Rightarrow> 64 word" where
  "PTL3_INDEX addr = (drop_bit PTL3_SHIFT addr) AND (PTRS_PER_PTL3 - 1)"

definition PTL2_SHIFT :: nat where "PTL2_SHIFT = 21"
definition PTL2_BITS :: nat where "PTL2_BITS = 9"
definition PTL2_SIZE :: "64 word" where "PTL2_SIZE = push_bit PTL2_SHIFT 1"
definition PTL2_MASK :: "64 word" where "PTL2_MASK = NOT (PTL2_SIZE - 1)"
definition PTRS_PER_PTL2 :: "64 word" where "PTRS_PER_PTL2 = push_bit PTL2_BITS 1"
definition PTL2_INDEX :: "64 word \<Rightarrow> 64 word" where
  "PTL2_INDEX addr = (drop_bit PTL2_SHIFT addr) AND (PTRS_PER_PTL2 - 1)"

definition PTL1_SHIFT :: nat where "PTL1_SHIFT = 12"
definition PTL1_BITS :: nat where "PTL1_BITS = 9"
definition PTL1_SIZE :: "64 word" where "PTL1_SIZE = push_bit PTL1_SHIFT 1"
definition PTL1_MASK :: "64 word" where "PTL1_MASK = NOT (PTL1_SIZE - 1)"
definition PTRS_PER_PTL1 :: "64 word" where "PTRS_PER_PTL1 = push_bit PTL1_BITS 1"
definition PTL1_INDEX :: "64 word \<Rightarrow> 64 word" where
  "PTL1_INDEX addr = (drop_bit PTL1_SHIFT addr) AND (PTRS_PER_PTL1 - 1)"

definition PAGE_OFFSET :: "64 word \<Rightarrow> 64 word" where
  "PAGE_OFFSET addr = addr AND (NOT PTL1_MASK)"

definition PHYS_MASK :: "64 word" where "PHYS_MASK = 0x000FFFFFFFFFF000"
definition PHYS_FLAGS :: "64 word \<Rightarrow> 64 word" where
  "PHYS_FLAGS addr = addr AND (NOT PHYS_MASK)"

subsection \<open>class PageTableEntry\<close>

record PageTableEntry =
  m_raw :: uintptr_t

definition raw :: "PageTableEntry \<Rightarrow> uintptr_t" where
  "raw e = m_raw e"

definition frame_base :: "PageTableEntry \<Rightarrow> uintptr_t" where
  "frame_base e = m_raw e AND PHYS_MASK"

definition set_frame_base :: "PageTableEntry \<Rightarrow> uintptr_t \<Rightarrow> error + PageTableEntry" where
  "set_frame_base e base =
     (if \<not> (base AND PHYS_MASK) = base then Inl (AssertFailed ''invalid base: %p'')
      else Inr (e\<lparr>m_raw := (m_raw e AND NOT PHYS_MASK) OR base\<rparr>))"

definition set_flags :: "PageTableEntry \<Rightarrow> 64 word \<Rightarrow> error + PageTableEntry" where
  "set_flags e page_flags =
     (if \<not> (page_flags AND NOT PHYS_MASK) = page_flags
      then Inl (AssertFailed ''invalig page flags: %p'')
      else Inr (e\<lparr>m_raw := (m_raw e AND PHYS_MASK) OR page_flags\<rparr>))"

definition clear :: "PageTableEntry \<Rightarrow> PageTableEntry" where
  "clear e = e\<lparr>m_raw := 0\<rparr>"

section \<open>hypervisor/src/elf_parser.cpp: data\<close>

text \<open>
  Modelled from the spec: the macros \<open>ELFCLASS\<close>, \<open>EM\<close> and \<open>PAGE_SIZE\<close> of the
  hypervisor are declared in headers that are not among the source files modelled here. The spec
  fixes the single supported architecture as x86-64, so the class is the 64-bit class and
  the machine is x86-64, and pages have the 12-bit offset of the 9/9/9/9/12 split, the
  \<open>PAGE_SIZE\<close> of \<open>page_table.h\<close>.
\<close>

definition ELFCLASS :: "8 word" where "ELFCLASS = 2"
definition EM :: "16 word" where "EM = 62"
definition PAGE_SIZE :: "64 word" where "PAGE_SIZE = 0x1000"

text \<open>
  Constants and macros of the system header \<open>elf.h\<close> that the parser uses, with their
  standard values; \<open>sizeof_Elf_Sym\<close> is \<open>sizeof(Elf_Sym)\<close> for the 64-bit class.
\<close>

definition ET_EXEC :: "16 word" where "ET_EXEC = 2"
definition ET_DYN :: "16 word" where "ET_DYN = 3"
definition PT_LOAD :: "32 word" where "PT_LOAD = 1"
definition PT_INTERP :: "32 word" where "PT_INTERP = 3"
definition SHT_SYMTAB :: "32 word" where "SHT_SYMTAB = 2"
definition SHT_DYNSYM :: "32 word" where "SHT_DYNSYM = 11"
definition sizeof_Elf_Sym :: "64 word" where "sizeof_Elf_Sym = 24"

definition ELF_ST_TYPE :: "8 word \<Rightarrow> 8 word" where "ELF_ST_TYPE i = i AND 0xf"
definition ELF_ST_BIND :: "8 word \<Rightarrow> 8 word" where "ELF_ST_BIND i = drop_bit 4 i"
definition ELF_ST_VISIBILITY :: "8 word \<Rightarrow> 8 word" where "ELF_ST_VISIBILITY ot = ot AND 0x3"

text \<open>The macro \<open>PAGE_CEIL\<close> at the head of \<open>elf_parser.cpp\<close>.\<close>

definition PAGE_CEIL :: "64 word \<Rightarrow> 64 word" where
  "PAGE_CEIL addr = (addr + PAGE_SIZE - 1) AND NOT (PAGE_SIZE - 1)"

text \<open>The on-disk records the parser reads (ELF64 layouts).\<close>

record Elf_Ehdr =
  e_ident_EI_CLASS :: "8 word"
  e_type :: "16 word"
  e_machine :: "16 word"
  e_entry :: "64 word"
  e_phoff :: "64 word"
  e_shoff :: "64 word"
  e_phentsize :: "16 word"
  e_phnum :: "16 word"
  e_shnum :: "16 word"
  e_shstrndx :: "16 word"

record Elf_Phdr =
  p_type :: "32 word"
  p_flags :: "32 word"
  p_offset :: "64 word"
  p_vaddr :: "64 word"
  p_paddr :: "64 word"
  p_filesz :: "64 word"
  p_memsz :: "64 word"
  p_align :: "64 word"

record Elf_Shdr =
  sh_name :: "32 word"
  sh_type :: "32 word"
  sh_flags :: "64 word"
  sh_addr :: "64 word"
  sh_offset :: "64 word"
  sh_size :: "64 word"
  sh_link :: "32 word"
  sh_info :: "32 word"
  sh_addralign :: "64 word"
  sh_entsize :: "64 word"

record Elf_Sym =
  st_name :: "32 word"
  st_info :: "8 word"
  st_other :: "8 word"
  st_shndx :: "16 word"
  st_value :: "64 word"
  st_size :: "64 word"

text \<open>
  The mapped file \<open>m_data\<close>, as the parser reads it. A pointer into the buffer is its
  offset from \<open>m_data\<close>; the casts of the source are the decoding functions below:
  \<open>phdr f i\<close> is \<open>phdr[i]\<close> (the table at \<open>e_phoff\<close>), \<open>shdr f i\<close> is \<open>shdr[i]\<close> (the
  table at \<open>e_shoff\<close>), \<open>syms f off i\<close> is \<open>((Elf_Sym*)(m_data + off))[i]\<close> and
  \<open>cstr f off\<close> is the NUL-terminated string at \<open>m_data + off\<close>. \<open>ldd_lines\<close> is the
  output of the external \<open>ldd\<close> command split at newlines, and \<open>elf_debug\<close> is the
  \<open>ElfDebug\<close> object built from the buffer (class \<open>ElfDebug\<close> is not part of these
  sources; its type is a parameter).
\<close>

record 'd elf_file =
  ehdr :: Elf_Ehdr
  phdr :: "nat \<Rightarrow> Elf_Phdr"
  shdr :: "nat \<Rightarrow> Elf_Shdr"
  syms :: "64 word \<Rightarrow> nat \<Rightarrow> Elf_Sym"
  cstr :: "64 word \<Rightarrow> string"
  file_size :: vsize_t
  ldd_lines :: "string list"
  elf_debug :: 'd

text \<open>
  The parsed views. Fields that share a name in the source (\<open>type\<close>, \<open>flags\<close>,
  \<open>offset\<close>, \<open>data\<close>, \<open>name\<close>, \<open>size\<close>, \<open>value\<close>) carry the suffix of their struct.
\<close>

record segment_t =
  type_seg :: "32 word"
  flags_seg :: "32 word"
  offset_seg :: "64 word"
  vaddr :: vaddr_t
  paddr :: vaddr_t
  filesize :: vsize_t
  memsize :: vsize_t
  align :: "64 word"
  data_seg :: "64 word"

record section_t =
  name_sec :: string
  type_sec :: "32 word"
  flags_sec :: "64 word"
  addr :: vaddr_t
  offset_sec :: "64 word"
  size_sec :: vsize_t
  link :: "32 word"
  info :: "32 word"
  addralign :: "64 word"
  entsize :: "64 word"
  data_sec :: "64 word"

record symbol_t =
  name_sym :: string
  type_sym :: "8 word"
  binding :: "8 word"
  visibility :: "8 word"
  shndx :: "16 word"
  value_sym :: vaddr_t
  size_sym :: vsize_t

record phinfo_t =
  e_phoff_info :: "64 word"
  e_phentsize_info :: "16 word"
  e_phnum_info :: "16 word"

record 'd ElfParser =
  m_path :: string
  m_size :: vsize_t
  m_phinfo :: phinfo_t
  m_type :: "16 word"
  m_entry :: vaddr_t
  m_load_addr :: vaddr_t
  m_initial_brk :: vaddr_t
  m_interpreter :: string
  m_segments :: "segment_t list"
  m_sections :: "section_t list"
  m_symbols :: "symbol_t list"
  m_dependencies :: "string list"
  m_debug :: 'd

section \<open>hypervisor/src/elf_parser.cpp: ElfParser::init\<close>

definition mk_segment :: "Elf_Phdr \<Rightarrow> segment_t" where
  "mk_segment ph =
     \<lparr>type_seg = p_type ph, flags_seg = p_flags ph, offset_seg = p_offset ph,
      vaddr = p_vaddr ph, paddr = p_paddr ph, filesize = p_filesz ph,
      memsize = p_memsz ph, align = p_align ph, data_seg = p_offset ph\<rparr>"

text \<open>
  The loop over the program headers. Its state is the part of the object it writes:
  \<open>(m_segments, m_load_addr, m_initial_brk, m_interpreter)\<close>.
\<close>

fun get_segments ::
  "(64 word \<Rightarrow> string) \<Rightarrow> Elf_Phdr list \<Rightarrow>
   segment_t list \<times> vaddr_t \<times> vaddr_t \<times> string \<Rightarrow>
   segment_t list \<times> vaddr_t \<times> vaddr_t \<times> string" where
  "get_segments cs [] st = st"
| "get_segments cs (ph # phs) (segs, load_addr, initial_brk, interp) =
     (let segment = mk_segment ph;
          segs1 = segs @ [segment];
          initial_brk1 = (if type_seg segment = PT_LOAD
                          then max initial_brk (PAGE_CEIL (vaddr segment + memsize segment))
                          else initial_brk);
          load_addr1 = (if type_seg segment = PT_LOAD
                        then min load_addr (vaddr segment) else load_addr);
          interp1 = (if type_seg segment = PT_INTERP then cs (data_seg segment) else interp)
      in get_segments cs phs (segs1, load_addr1, initial_brk1, interp1))"

definition mk_section :: "'d elf_file \<Rightarrow> nat \<Rightarrow> section_t" where
  "mk_section f i =
     (let sh = shdr f i;
          strtab = sh_offset (shdr f (unat (e_shstrndx (ehdr f))))
      in \<lparr>name_sec = cstr f (strtab + ucast (sh_name sh)), type_sec = sh_type sh,
          flags_sec = sh_flags sh, addr = sh_addr sh, offset_sec = sh_offset sh,
          size_sec = sh_size sh, link = sh_link sh, info = sh_info sh,
          addralign = sh_addralign sh, entsize = sh_entsize sh, data_sec = sh_offset sh\<rparr>)"

definition mk_symbol :: "'d elf_file \<Rightarrow> 64 word \<Rightarrow> Elf_Sym \<Rightarrow> symbol_t" where
  "mk_symbol f sec_strtab sy =
     \<lparr>name_sym = cstr f (sec_strtab + ucast (st_name sy)),
      type_sym = ELF_ST_TYPE (st_info sy), binding = ELF_ST_BIND (st_info sy),
      visibility = ELF_ST_VISIBILITY (st_other sy), shndx = st_shndx sy,
      value_sym = st_value sy, size_sym = st_size sy\<rparr>"

text \<open>
  The loop over \<open>m_sections\<close> that collects the symbols; \<open>all_secs\<close> is \<open>m_sections\<close>,
  indexed by the \<open>link\<close> of a symbol section.
\<close>

fun get_symbols ::
  "'d elf_file \<Rightarrow> section_t list \<Rightarrow> section_t list \<Rightarrow> symbol_t list \<Rightarrow> error + symbol_t list" where
  "get_symbols f all_secs [] acc = Inr acc"
| "get_symbols f all_secs (s # rest) acc =
     (if type_sec s \<noteq> SHT_SYMTAB \<and> type_sec s \<noteq> SHT_DYNSYM
      then get_symbols f all_secs rest acc
      else
        (let n_syms = unat (size_sec s div sizeof_Elf_Sym)
         in if \<not> unat (link s) < length all_secs then Inl OutOfRange
            else
              (let sec_strtab = data_sec (all_secs ! unat (link s))
               in get_symbols f all_secs rest
                    (acc @ map (\<lambda>i. mk_symbol f sec_strtab (syms f (data_sec s) i)) [0..<n_syms]))))"

text \<open>\<open>std::string::find(pat, pos)\<close>: the first index at or after \<open>pos\<close> where \<open>pat\<close> occurs.\<close>

fun find_at :: "string \<Rightarrow> string \<Rightarrow> nat \<Rightarrow> nat option" where
  "find_at pat [] k = (if pat = [] then Some k else None)"
| "find_at pat (c # cs) k =
     (if take (length pat) (c # cs) = pat then Some k else find_at pat cs (Suc k))"

definition find_str :: "string \<Rightarrow> string \<Rightarrow> nat \<Rightarrow> nat option" where
  "find_str s pat pos = (if pos \<le> length s then find_at pat (drop pos s) pos else None)"

definition dependency_of_line :: "string \<Rightarrow> string option" where
  "dependency_of_line line =
     (case find_str line ''=> '' 0 of
        None \<Rightarrow> None
      | Some p \<Rightarrow>
          (let pos1 = p + 3
           in case find_str line '' '' pos1 of
                None \<Rightarrow> None
              | Some pos2 \<Rightarrow> Some (take (pos2 - pos1) (drop pos1 line))))"

fun get_dependencies :: "string list \<Rightarrow> string list \<Rightarrow> string list" where
  "get_dependencies [] acc = acc"
| "get_dependencies (line # rest) acc =
     (case dependency_of_line line of
        None \<Rightarrow> get_dependencies rest acc
      | Some d \<Rightarrow> get_dependencies rest (acc @ [d]))"

text \<open>
  \<open>ElfParser::init\<close>, reached from both constructors (the first one maps the file and
  fails on I/O errors before it). The three header checks come first, then the segments,
  the check on the load address of a PIE, the sections, the symbols, the dependencies and
  the debug object.
\<close>

definition init :: "string \<Rightarrow> 'd elf_file \<Rightarrow> error + 'd ElfParser" where
  "init path f =
     (let eh = ehdr f
      in if e_ident_EI_CLASS eh \<noteq> ELFCLASS
         then Inl (AssertFailed ''elf %s: BITS don't match (expecting %d)'')
         else if e_machine eh \<noteq> EM
         then Inl (AssertFailed ''elf %s: MACH doesn't match (expecting %s)'')
         else if \<not> (e_type eh = ET_EXEC \<or> e_type eh = ET_DYN)
         then Inl (AssertFailed ''elf %s: TYPE doesn't match (expecting executable or shared'')
         else
           (case get_segments (cstr f) (map (phdr f) [0..<unat (e_phnum eh)]) ([], - 1, 0, []) of
              (segs, load_addr, initial_brk, interp) \<Rightarrow>
                if e_type eh = ET_DYN \<and> load_addr \<noteq> 0
                then Inl (AssertFailed ''PIE %s binary with load addr %p'')
                else
                  (let secs = map (mk_section f) [0..<unat (e_shnum eh)]
                   in case get_symbols f secs secs [] of
                        Inl err \<Rightarrow> Inl err
                      | Inr symbols \<Rightarrow>
                          Inr \<lparr>m_path = path, m_size = file_size f,
                               m_phinfo = \<lparr>e_phoff_info = e_phoff eh,
                                           e_phentsize_info = e_phentsize eh,
                                           e_phnum_info = e_phnum eh\<rparr>,
                               m_type = e_type eh, m_entry = e_entry eh,
                               m_load_addr = load_addr, m_initial_brk = initial_brk,
                               m_interpreter = interp, m_segments = segs,
                               m_sections = secs, m_symbols = symbols,
                               m_dependencies = get_dependencies (ldd_lines f) [],
                               m_debug = elf_debug f\<rparr>)))"

section \<open>hypervisor/src/elf_parser.cpp: relocation and lookups\<close>

definition set_load_addr :: "'d ElfParser \<Rightarrow> vaddr_t \<Rightarrow> error + 'd ElfParser" where
  "set_load_addr p load_addr =
     (if m_type p \<noteq> ET_DYN
      then Inl (AssertFailed ''setting load_addr to not PIE binary %s'')
      else
        (let diff = load_addr - m_load_addr p
         in Inr (p\<lparr>m_load_addr := load_addr,
                   m_entry := m_entry p + diff,
                   m_initial_brk := m_initial_brk p + diff,
                   m_segments := map (\<lambda>sg. sg\<lparr>vaddr := vaddr sg + diff, paddr := paddr sg + diff\<rparr>)
                                     (m_segments p),
                   m_sections := map (\<lambda>sc. sc\<lparr>addr := addr sc + diff\<rparr>) (m_sections p),
                   m_symbols := map (\<lambda>sy. sy\<lparr>value_sym := value_sym sy + diff\<rparr>)
                                    (m_symbols p)\<rparr>)))"

definition load_addr :: "'d ElfParser \<Rightarrow> vaddr_t" where "load_addr p = m_load_addr p"
definition initial_brk :: "'d ElfParser \<Rightarrow> vaddr_t" where "initial_brk p = m_initial_brk p"
definition type_elf :: "'d ElfParser \<Rightarrow> 16 word" where "type_elf p = m_type p"
definition entry :: "'d ElfParser \<Rightarrow> vaddr_t" where "entry p = m_entry p"
definition segments :: "'d ElfParser \<Rightarrow> segment_t list" where "segments p = m_segments p"
definition sections :: "'d ElfParser \<Rightarrow> section_t list" where "sections p = m_sections p"
definition symbols :: "'d ElfParser \<Rightarrow> symbol_t list" where "symbols p = m_symbols p"

fun section_limits_loop :: "section_t list \<Rightarrow> string \<Rightarrow> error + (vaddr_t \<times> vaddr_t)" where
  "section_limits_loop [] name = Inl (AssertFailed ''not found section: %s'')"
| "section_limits_loop (s # rest) name =
     (if name_sec s = name then Inr (addr s, addr s + size_sec s)
      else section_limits_loop rest name)"

definition section_limits :: "'d ElfParser \<Rightarrow> string \<Rightarrow> error + (vaddr_t \<times> vaddr_t)" where
  "section_limits p name = section_limits_loop (sections p) name"

fun symbol_limits_loop :: "symbol_t list \<Rightarrow> string \<Rightarrow> error + (vaddr_t \<times> vaddr_t)" where
  "symbol_limits_loop [] name = Inl (AssertFailed ''not found symbol: %s'')"
| "symbol_limits_loop (s # rest) name =
     (if name_sym s = name then Inr (value_sym s, value_sym s + size_sym s)
      else symbol_limits_loop rest name)"

definition symbol_limits :: "'d ElfParser \<Rightarrow> string \<Rightarrow> error + (vaddr_t \<times> vaddr_t)" where
  "symbol_limits p name = symbol_limits_loop (symbols p) name"

text \<open>
  \<open>addr_to_symbol\<close> returns \<open>true\<close> and writes \<open>result\<close>, or returns \<open>false\<close> and leaves
  \<open>result\<close> alone: \<open>Some symbol\<close> and \<open>None\<close>.
\<close>

fun addr_to_symbol_loop :: "symbol_t list \<Rightarrow> vaddr_t \<Rightarrow> symbol_t option" where
  "addr_to_symbol_loop [] a = None"
| "addr_to_symbol_loop (s # rest) a =
     (if a \<ge> value_sym s \<and> a < value_sym s + size_sym s then Some s
      else addr_to_symbol_loop rest a)"

definition addr_to_symbol :: "'d ElfParser \<Rightarrow> vaddr_t \<Rightarrow> symbol_t option" where
  "addr_to_symbol p a = addr_to_symbol_loop (symbols p) a"

section \<open>hypervisor/src/elf_parser.cpp: stack traces\<close>

text \<open>The register snapshot \<open>struct kvm_regs\<close> of the KVM interface.\<close>

record kvm_regs =
  rax :: "64 word"
  rbx :: "64 word"
  rcx :: "64 word"
  rdx :: "64 word"
  rsi :: "64 word"
  rdi :: "64 word"
  rsp :: "64 word"
  rbp :: "64 word"
  r8 :: "64 word"
  r9 :: "64 word"
  r10 :: "64 word"
  r11 :: "64 word"
  r12 :: "64 word"
  r13 :: "64 word"
  r14 :: "64 word"
  r15 :: "64 word"
  rip :: "64 word"
  rflags :: "64 word"

text \<open>
  Modelled from the spec: the enumeration \<open>DwarfReg\<close> is declared in a header that is not
  among the source files modelled here. The spec describes a fixed-size array indexed by an
  architecture register identifier, the general-purpose registers plus a synthetic
  return-address slot. Its members are the seventeen distinct identifiers that
  \<open>kvm_to_dwarf_regs\<close> names, and the array \<open>vsize_t regs[DwarfReg::MAX]\<close> is a function
  from them.
\<close>

datatype DwarfReg =
  Rax | Rdx | Rcx | Rbx | Rsi | Rdi | Rbp | Rsp
  | R8 | R9 | R10 | R11 | R12 | R13 | R14 | R15 | ReturnAddress

type_synonym dwarf_regs = "DwarfReg \<Rightarrow> vsize_t"

text \<open>The seventeen assignments, in the order of the source.\<close>

definition kvm_to_dwarf_regs :: "kvm_regs \<Rightarrow> dwarf_regs \<Rightarrow> dwarf_regs" where
  "kvm_to_dwarf_regs kregs regs =
     regs(Rax := rax kregs,
          Rdx := rdx kregs,
          Rcx := rdx kregs,
          Rbx := rbx kregs,
          Rsi := rsi kregs,
          Rdi := rdi kregs,
          Rbp := rbp kregs,
          Rsp := rsp kregs,
          R8 := r8 kregs,
          R9 := r9 kregs,
          R10 := r10 kregs,
          R11 := r11 kregs,
          R12 := r12 kregs,
          R13 := r13 kregs,
          R14 := r14 kregs,
          R15 := r15 kregs,
          ReturnAddress := rip kregs)"

text \<open>
  \<open>ElfDebug::next_frame(regs, mmu)\<close> is not part of these sources: it is the parameter
  \<open>nf\<close>, which takes the debug object, the register array and the memory reader, and
  gives back the boolean it returns together with the register array and the memory reader
  as it leaves them. The counters \<open>i\<close> and \<open>num_frames\<close> are \<open>size_t\<close>; \<open>i\<close> starts at
  0 and is incremented only while it stays below \<open>num_frames\<close>, so it never wraps and the
  counters are natural numbers. \<open>regs0\<close> is the content of the local array \<open>regs\<close> before
  \<open>kvm_to_dwarf_regs\<close> fills it.

  The body of the \<open>do ... while\<close> of the single-image \<open>get_stacktrace\<close>: the body runs
  first, then \<open>++i < num_frames\<close>, then \<open>next_frame\<close>, then the two comparisons with the
  limits, each only if the one before held.
\<close>

function get_stacktrace_loop ::
  "('d \<Rightarrow> dwarf_regs \<Rightarrow> 'm \<Rightarrow> bool \<times> dwarf_regs \<times> 'm) \<Rightarrow> 'd ElfParser \<Rightarrow>
   vaddr_t \<times> vaddr_t \<Rightarrow> nat \<Rightarrow> nat \<Rightarrow> dwarf_regs \<Rightarrow> 'm \<Rightarrow> vaddr_t list \<Rightarrow> vaddr_t list" where
  "get_stacktrace_loop nf p limits num_frames i regs mmu stacktrace =
     (let stacktrace1 = stacktrace @ [regs ReturnAddress];
          regs1 = (if m_type p = ET_DYN
                   then regs(ReturnAddress := regs ReturnAddress - m_load_addr p)
                   else regs)
      in if Suc i < num_frames
         then
           (case nf (m_debug p) regs1 mmu of
              (ok, regs2, mmu2) \<Rightarrow>
                if ok \<and> regs2 ReturnAddress \<ge> fst limits \<and> regs2 ReturnAddress < snd limits
                then get_stacktrace_loop nf p limits num_frames (Suc i) regs2 mmu2 stacktrace1
                else stacktrace1)
         else stacktrace1)"
  by pat_completeness auto
termination
  by (relation "measure (\<lambda>(nf, p, limits, num_frames, i, regs, mmu, stacktrace). num_frames - i)")
     auto

declare get_stacktrace_loop.simps [simp del]

definition get_stacktrace ::
  "('d \<Rightarrow> dwarf_regs \<Rightarrow> 'm \<Rightarrow> bool \<times> dwarf_regs \<times> 'm) \<Rightarrow> dwarf_regs \<Rightarrow> 'd ElfParser \<Rightarrow>
   kvm_regs \<Rightarrow> nat \<Rightarrow> 'm \<Rightarrow> error + vaddr_t list" where
  "get_stacktrace nf regs0 p kregs num_frames mmu =
     (let regs = kvm_to_dwarf_regs kregs regs0
      in case section_limits p ''.text'' of
           Inl err \<Rightarrow> Inl err
         | Inr limits \<Rightarrow> Inr (get_stacktrace_loop nf p limits num_frames 0 regs mmu []))"

text \<open>
  \<open>elf_with_addr_in_text\<close>: the first image of the vector whose \<open>.text\<close> range holds the
  address, or \<open>nullptr\<close> (\<open>None\<close>). An image is the object a pointer of the vector points
  to. \<open>section_limits\<close> is called on every image the scan reaches.
\<close>

fun elf_with_addr_in_text :: "'d ElfParser list \<Rightarrow> vaddr_t \<Rightarrow> error + 'd ElfParser option" where
  "elf_with_addr_in_text [] a = Inr None"
| "elf_with_addr_in_text (elf # rest) a =
     (case section_limits elf ''.text'' of
        Inl err \<Rightarrow> Inl err
      | Inr range_text \<Rightarrow>
          if fst range_text \<le> a \<and> a < snd range_text then Inr (Some elf)
          else elf_with_addr_in_text rest a)"

text \<open>The body of the \<open>do ... while\<close> of the multi-image \<open>get_stacktrace\<close>.\<close>

function get_stacktrace_elfs_loop ::
  "('d \<Rightarrow> dwarf_regs \<Rightarrow> 'm \<Rightarrow> bool \<times> dwarf_regs \<times> 'm) \<Rightarrow> 'd ElfParser list \<Rightarrow>
   nat \<Rightarrow> nat \<Rightarrow> dwarf_regs \<Rightarrow> 'm \<Rightarrow> (vaddr_t \<times> 'd ElfParser) list \<Rightarrow>
   error + (vaddr_t \<times> 'd ElfParser) list" where
  "get_stacktrace_elfs_loop nf elfs num_frames i regs mmu stacktrace =
     (case elf_with_addr_in_text elfs (regs ReturnAddress) of
        Inl err \<Rightarrow> Inl err
      | Inr None \<Rightarrow> Inr stacktrace
      | Inr (Some elf) \<Rightarrow>
          (let stacktrace1 = stacktrace @ [(regs ReturnAddress, elf)];
               regs1 = (if type_elf elf = ET_DYN
                        then regs(ReturnAddress := regs ReturnAddress - load_addr elf)
                        else regs)
           in if Suc i < num_frames
              then
                (case nf (m_debug elf) regs1 mmu of
                   (ok, regs2, mmu2) \<Rightarrow>
                     if ok
                     then get_stacktrace_elfs_loop nf elfs num_frames (Suc i) regs2 mmu2 stacktrace1
                     else Inr stacktrace1)
              else Inr stacktrace1))"
  by pat_completeness auto
termination
  by (relation "measure (\<lambda>(nf, elfs, num_frames, i, regs, mmu, stacktrace). num_frames - i)")
     auto

declare get_stacktrace_elfs_loop.simps [simp del]

definition get_stacktrace_elfs ::
  "('d \<Rightarrow> dwarf_regs \<Rightarrow> 'm \<Rightarrow> bool \<times> dwarf_regs \<times> 'm) \<Rightarrow> dwarf_regs \<Rightarrow> 'd ElfParser list \<Rightarrow>
   kvm_regs \<Rightarrow> nat \<Rightarrow> 'm \<Rightarrow> error + (vaddr_t \<times> 'd ElfParser) list" where
  "get_stacktrace_elfs nf regs0 elfs kregs num_frames mmu =
     get_stacktrace_elfs_loop nf elfs num_frames 0 (kvm_to_dwarf_regs kregs regs0) mmu []"

section \<open>Predicates of the statements\<close>

text \<open>
  The vocabulary of the theorems below, on top of the functions of the source:
  an image has a section named \<open>.text\<close>; the range \<open>section_limits\<close> returns for
  \<open>.text\<close> holds an address; the first image of a list, in order, whose \<open>.text\<close> range
  holds an address; the loadable segments of an image.
\<close>

definition has_text :: "'d ElfParser \<Rightarrow> bool" where
  "has_text elf = (\<exists>s \<in> set (sections elf). name_sec s = ''.text'')"

definition text_contains :: "'d ElfParser \<Rightarrow> vaddr_t \<Rightarrow> bool" where
  "text_contains elf a =
     (case section_limits elf ''.text'' of
        Inl err \<Rightarrow> False
      | Inr r \<Rightarrow> fst r \<le> a \<and> a < snd r)"

definition text_owner :: "'d ElfParser list \<Rightarrow> vaddr_t \<Rightarrow> 'd ElfParser option" where
  "text_owner elfs a = find (\<lambda>elf. text_contains elf a) elfs"

definition loadable :: "'d ElfParser \<Rightarrow> segment_t list" where
  "loadable p = filter (\<lambda>s. type_seg s = PT_LOAD) (segments p)"

section \<open>Example inputs\<close>

text \<open>
  A small position-independent file: two loadable segments around a \<open>PT_INTERP\<close>
  segment, four sections (the null section, \<open>.text\<close>, \<open>.symtab\<close> and one string table
  for section and symbol names) and two symbols.
\<close>

definition example_ehdr :: Elf_Ehdr where
  "example_ehdr =
     \<lparr>e_ident_EI_CLASS = 2, e_type = 3, e_machine = 62, e_entry = 0x1040,
      e_phoff = 0x40, e_shoff = 0x3000, e_phentsize = 56, e_phnum = 3,
      e_shnum = 4, e_shstrndx = 3\<rparr>"

definition example_phdr :: "nat \<Rightarrow> Elf_Phdr" where
  "example_phdr i =
     (if i = 0 then
        \<lparr>p_type = 1, p_flags = 5, p_offset = 0, p_vaddr = 0, p_paddr = 0,
         p_filesz = 0x2000, p_memsz = 0x2000, p_align = 0x1000\<rparr>
      else if i = 1 then
        \<lparr>p_type = 3, p_flags = 4, p_offset = 0x238, p_vaddr = 0x238, p_paddr = 0x238,
         p_filesz = 0x1c, p_memsz = 0x1c, p_align = 1\<rparr>
      else
        \<lparr>p_type = 1, p_flags = 6, p_offset = 0x2000, p_vaddr = 0x3000, p_paddr = 0x3000,
         p_filesz = 0x100, p_memsz = 0x234, p_align = 0x1000\<rparr>)"

definition example_shdr :: "nat \<Rightarrow> Elf_Shdr" where
  "example_shdr i =
     (if i = 1 then
        \<lparr>sh_name = 1, sh_type = 1, sh_flags = 6, sh_addr = 0x1000, sh_offset = 0x1000,
         sh_size = 0x100, sh_link = 0, sh_info = 0, sh_addralign = 16, sh_entsize = 0\<rparr>
      else if i = 2 then
        \<lparr>sh_name = 7, sh_type = 2, sh_flags = 0, sh_addr = 0, sh_offset = 0x2200,
         sh_size = 48, sh_link = 3, sh_info = 1, sh_addralign = 8, sh_entsize = 24\<rparr>
      else if i = 3 then
        \<lparr>sh_name = 15, sh_type = 3, sh_flags = 0, sh_addr = 0, sh_offset = 0x2300,
         sh_size = 0x20, sh_link = 0, sh_info = 0, sh_addralign = 1, sh_entsize = 0\<rparr>
      else
        \<lparr>sh_name = 0, sh_type = 0, sh_flags = 0, sh_addr = 0, sh_offset = 0,
         sh_size = 0, sh_link = 0, sh_info = 0, sh_addralign = 0, sh_entsize = 0\<rparr>)"

definition example_syms :: "64 word \<Rightarrow> nat \<Rightarrow> Elf_Sym" where
  "example_syms off i =
     (if i = 0 then
        \<lparr>st_name = 23, st_info = 0x12, st_other = 0, st_shndx = 1,
         st_value = 0x1000, st_size = 0x40\<rparr>
      else
        \<lparr>st_name = 28, st_info = 0x02, st_other = 2, st_shndx = 1,
         st_value = 0x1040, st_size = 0x20\<rparr>)"

definition example_cstr :: "64 word \<Rightarrow> string" where
  "example_cstr off =
     (if off = 0x2301 then ''.text''
      else if off = 0x2307 then ''.symtab''
      else if off = 0x230f then ''.strtab''
      else if off = 0x2317 then ''main''
      else if off = 0x231c then ''helper''
      else if off = 0x238 then ''/lib64/ld-linux-x86-64.so.2''
      else [])"

definition example_file :: "unit elf_file" where
  "example_file =
     \<lparr>ehdr = example_ehdr, phdr = example_phdr, shdr = example_shdr,
      syms = example_syms, cstr = example_cstr, file_size = 0x3100,
      ldd_lines = [''  libc.so.6 => /lib/libc.so.6 (0x00007f0000000000)'',
                   ''  linux-vdso.so.1 (0x00007ffd00000000)''],
      elf_debug = ()\<rparr>"

definition example_segments :: "segment_t list" where
  "example_segments =
     [\<lparr>type_seg = 1, flags_seg = 5, offset_seg = 0, vaddr = 0, paddr = 0,
       filesize = 0x2000, memsize = 0x2000, align = 0x1000, data_seg = 0\<rparr>,
      \<lparr>type_seg = 3, flags_seg = 4, offset_seg = 0x238, vaddr = 0x238, paddr = 0x238,
       filesize = 0x1c, memsize = 0x1c, align = 1, data_seg = 0x238\<rparr>,
      \<lparr>type_seg = 1, flags_seg = 6, offset_seg = 0x2000, vaddr = 0x3000, paddr = 0x3000,
       filesize = 0x100, memsize = 0x234, align = 0x1000, data_seg = 0x2000\<rparr>]"

definition example_sections :: "section_t list" where
  "example_sections =
     [\<lparr>name_sec = [], type_sec = 0, flags_sec = 0, addr = 0, offset_sec = 0,
       size_sec = 0, link = 0, info = 0, addralign = 0, entsize = 0, data_sec = 0\<rparr>,
      \<lparr>name_sec = ''.text'', type_sec = 1, flags_sec = 6, addr = 0x1000, offset_sec = 0x1000,
       size_sec = 0x100, link = 0, info = 0, addralign = 16, entsize = 0, data_sec = 0x1000\<rparr>,
      \<lparr>name_sec = ''.symtab'', type_sec = 2, flags_sec = 0, addr = 0, offset_sec = 0x2200,
       size_sec = 48, link = 3, info = 1, addralign = 8, entsize = 24, data_sec = 0x2200\<rparr>,
      \<lparr>name_sec = ''.strtab'', type_sec = 3, flags_sec = 0, addr = 0, offset_sec = 0x2300,
       size_sec = 0x20, link = 0, info = 0, addralign = 1, entsize = 0, data_sec = 0x2300\<rparr>]"

definition example_symbols :: "symbol_t list" where
  "example_symbols =
     [\<lparr>name_sym = ''main'', type_sym = 2, binding = 1, visibility = 0, shndx = 1,
       value_sym = 0x1000, size_sym = 0x40\<rparr>,
      \<lparr>name_sym = ''helper'', type_sym = 2, binding = 0, visibility = 2, shndx = 1,
       value_sym = 0x1040, size_sym = 0x20\<rparr>]"

definition example_image :: "unit ElfParser" where
  "example_image =
     \<lparr>m_path = ''prog'', m_size = 0x3100,
      m_phinfo = \<lparr>e_phoff_info = 0x40, e_phentsize_info = 56, e_phnum_info = 3\<rparr>,
      m_type = 3, m_entry = 0x1040, m_load_addr = 0, m_initial_brk = 0x4000,
      m_interpreter = ''/lib64/ld-linux-x86-64.so.2'',
      m_segments = example_segments, m_sections = example_sections,
      m_symbols = example_symbols, m_dependencies = [''/lib/libc.so.6''],
      m_debug = ()\<rparr>"

text \<open>
  A file whose section header table is empty (\<open>e_shnum = 0\<close>), as a binary stripped of
  its section headers has it, and the image \<open>init\<close> builds from it.
\<close>

definition stripped_file :: "unit elf_file" where
  "stripped_file =
     example_file\<lparr>ehdr := example_ehdr\<lparr>e_shnum := 0, e_shstrndx := 0\<rparr>\<rparr>"

definition stripped_image :: "unit ElfParser" where
  "stripped_image = example_image\<lparr>m_path := ''stripped'', m_sections := [], m_symbols := []\<rparr>"

text \<open>A register snapshot whose \<open>rcx\<close> and \<open>rdx\<close> differ, and an array of zeros.\<close>

definition example_kregs :: kvm_regs where
  "example_kregs =
     \<lparr>rax = 0, rbx = 0, rcx = 1, rdx = 2, rsi = 0, rdi = 0, rsp = 0x7000, rbp = 0x7010,
      r8 = 0, r9 = 0, r10 = 0, r11 = 0, r12 = 0, r13 = 0, r14 = 0, r15 = 0,
      rip = 0x1020, rflags = 0\<rparr>"

definition zero_regs :: dwarf_regs where
  "zero_regs = (\<lambda>r. 0)"

text \<open>
  A stand-in for \<open>next_frame\<close> on the example image: the frame at the return address
  0x1020 in \<open>main\<close> has its caller at 0x1050 in \<open>helper\<close>, whose caller is at 0x9000,
  outside the image; no other frame has a caller.
\<close>

definition example_next_frame :: "unit \<Rightarrow> dwarf_regs \<Rightarrow> unit \<Rightarrow> bool \<times> dwarf_regs \<times> unit" where
  "example_next_frame d regs mmu =
     (if regs ReturnAddress = 0x1020 then (True, regs(ReturnAddress := 0x1050), mmu)
      else if regs ReturnAddress = 0x1050 then (True, regs(ReturnAddress := 0x9000), mmu)
      else (False, regs, mmu))"

text \<open>
  A second image for walks that cross images: the example image under the path
  \<open>lib.so\<close>, relocated to the load address 0x10000, so that its \<open>.text\<close> range is
  0x11000 to 0x11100 and does not meet the range 0x1000 to 0x1100 of the example image.
\<close>

definition example_lib :: "unit ElfParser" where
  "example_lib =
     example_image
       \<lparr>m_path := ''lib.so'', m_load_addr := 0x10000, m_entry := 0x11040,
        m_initial_brk := 0x14000,
        m_segments :=
          map (\<lambda>sg. sg\<lparr>vaddr := vaddr sg + 0x10000, paddr := paddr sg + 0x10000\<rparr>)
            example_segments,
        m_sections := map (\<lambda>sc. sc\<lparr>addr := addr sc + 0x10000\<rparr>) example_sections,
        m_symbols := map (\<lambda>sy. sy\<lparr>value_sym := value_sym sy + 0x10000\<rparr>) example_symbols\<rparr>"

text \<open>
  A stand-in for \<open>next_frame\<close> on a call chain that crosses from the library into the
  program: the frame at the return address 0x1020 of the program has its caller at
  0x11050 in the library; the frame of the library at the link-time address 0x1050 (the
  address 0x11050 less the load address) has its caller at 0x9000, which no image owns;
  no other frame has a caller.
\<close>

definition crossing_next_frame ::
  "unit \<Rightarrow> dwarf_regs \<Rightarrow> unit \<Rightarrow> bool \<times> dwarf_regs \<times> unit" where
  "crossing_next_frame d regs mmu =
     (if regs ReturnAddress = 0x1020 then (True, regs(ReturnAddress := 0x11050), mmu)
      else if regs ReturnAddress = 0x1050 then (True, regs(ReturnAddress := 0x9000), mmu)
      else (False, regs, mmu))"

section \<open>Properties of the page-table model\<close>

lemma unat_index_bits:
  "unat ((drop_bit n (a :: 64 word)) AND (push_bit 9 1 - 1)) = (unat a div 2 ^ n) mod 512"
proof -
  have m: "(push_bit 9 1 - 1 :: 64 word) = mask 9"
    by (simp add: mask_eq_exp_minus_1)
  have "unat (drop_bit n a AND mask 9) = unat (take_bit 9 (drop_bit n a))"
    by (simp only: take_bit_eq_mask)
  also have "\<dots> = take_bit 9 (drop_bit n (unat a))"
    by (simp only: unsigned_take_bit_eq unat_drop_bit_eq)
  also have "\<dots> = (unat a div 2 ^ n) mod 512"
    by (simp add: take_bit_eq_mod drop_bit_eq_div)
  finally show ?thesis by (simp only: m)
qed

lemma unat_PTL4_INDEX: "unat (PTL4_INDEX a) = (unat a div 2 ^ 39) mod 512"
  unfolding PTL4_INDEX_def PTL4_SHIFT_def PTRS_PER_PTL4_def PTL4_BITS_def
  by (rule unat_index_bits)

lemma unat_PTL3_INDEX: "unat (PTL3_INDEX a) = (unat a div 2 ^ 30) mod 512"
  unfolding PTL3_INDEX_def PTL3_SHIFT_def PTRS_PER_PTL3_def PTL3_BITS_def
  by (rule unat_index_bits)

lemma unat_PTL2_INDEX: "unat (PTL2_INDEX a) = (unat a div 2 ^ 21) mod 512"
  unfolding PTL2_INDEX_def PTL2_SHIFT_def PTRS_PER_PTL2_def PTL2_BITS_def
  by (rule unat_index_bits)

lemma unat_PTL1_INDEX: "unat (PTL1_INDEX a) = (unat a div 2 ^ 12) mod 512"
  unfolding PTL1_INDEX_def PTL1_SHIFT_def PTRS_PER_PTL1_def PTL1_BITS_def
  by (rule unat_index_bits)

lemma unat_PAGE_OFFSET: "unat (PAGE_OFFSET a) = unat a mod 4096"
proof -
  have m: "NOT PTL1_MASK = (mask 12 :: 64 word)"
    by (simp add: PTL1_MASK_def PTL1_SIZE_def PTL1_SHIFT_def mask_eq_exp_minus_1)
  have "unat (a AND mask 12) = unat (take_bit 12 a)"
    by (simp only: take_bit_eq_mask)
  also have "\<dots> = take_bit 12 (unat a)"
    by (simp only: unsigned_take_bit_eq)
  also have "\<dots> = unat a mod 4096"
    by (simp add: take_bit_eq_mod)
  finally show ?thesis by (simp only: PAGE_OFFSET_def m)
qed

lemma split_9_9_9_9_12:
  "((((x div 2 ^ 39 mod 512) * 512 + (x div 2 ^ 30 mod 512)) * 512 + (x div 2 ^ 21 mod 512)) * 512
      + (x div 2 ^ 12 mod 512)) * 4096 + x mod 4096 = (x :: nat) mod 2 ^ 48"
proof -
  have a: "x mod 2 ^ 48 = 2 ^ 39 * (x div 2 ^ 39 mod 512) + x mod 2 ^ 39"
    using mod_mult2_eq [of x "2 ^ 39" 512] by simp
  have b: "x mod 2 ^ 39 = 2 ^ 30 * (x div 2 ^ 30 mod 512) + x mod 2 ^ 30"
    using mod_mult2_eq [of x "2 ^ 30" 512] by simp
  have c: "x mod 2 ^ 30 = 2 ^ 21 * (x div 2 ^ 21 mod 512) + x mod 2 ^ 21"
    using mod_mult2_eq [of x "2 ^ 21" 512] by simp
  have d: "x mod 2 ^ 21 = 2 ^ 12 * (x div 2 ^ 12 mod 512) + x mod 2 ^ 12"
    using mod_mult2_eq [of x "2 ^ 12" 512] by simp
  show ?thesis unfolding a b c d by simp
qed

text \<open>
  Claim C8. For every 64-bit virtual address, \<open>PTL4_INDEX\<close> is bits 47..39, \<open>PTL3_INDEX\<close>
  bits 38..30, \<open>PTL2_INDEX\<close> bits 29..21 and \<open>PTL1_INDEX\<close> bits 20..12 of the address,
  each below 512; \<open>PAGE_OFFSET\<close> is bits 11..0, below 4096; and
  \<open>(((PTL4 * 512 + PTL3) * 512 + PTL2) * 512 + PTL1) * 4096 + PAGE_OFFSET\<close> is the address
  modulo \<open>2 ^ 48\<close>.
\<close>

theorem page_table_index_split:
  "unat (PTL4_INDEX a) = unat a div 2 ^ 39 mod 2 ^ 9 \<and>
   unat (PTL3_INDEX a) = unat a div 2 ^ 30 mod 2 ^ 9 \<and>
   unat (PTL2_INDEX a) = unat a div 2 ^ 21 mod 2 ^ 9 \<and>
   unat (PTL1_INDEX a) = unat a div 2 ^ 12 mod 2 ^ 9 \<and>
   unat (PAGE_OFFSET a) = unat a mod 2 ^ 12 \<and>
   unat (PTL4_INDEX a) < 512 \<and> unat (PTL3_INDEX a) < 512 \<and>
   unat (PTL2_INDEX a) < 512 \<and> unat (PTL1_INDEX a) < 512 \<and>
   unat (PAGE_OFFSET a) < 4096 \<and>
   (((unat (PTL4_INDEX a) * 512 + unat (PTL3_INDEX a)) * 512 + unat (PTL2_INDEX a)) * 512
      + unat (PTL1_INDEX a)) * 4096 + unat (PAGE_OFFSET a) = unat a mod 2 ^ 48"
  unfolding unat_PTL4_INDEX unat_PTL3_INDEX unat_PTL2_INDEX unat_PTL1_INDEX unat_PAGE_OFFSET
  using split_9_9_9_9_12 [of "unat a"] by simp

lemma within_mask_iff: "(b AND M = b) \<longleftrightarrow> (b AND NOT M = 0)" for b M :: "64 word"
proof
  assume "b AND M = b"
  then have "b AND NOT M = (b AND M) AND NOT M" by simp
  also have "\<dots> = 0" by (simp add: and.assoc)
  finally show "b AND NOT M = 0" .
next
  assume z: "b AND NOT M = 0"
  have "b = (b AND M) OR (b AND NOT M)"
    by (simp flip: bit.conj_disj_distrib)
  then show "b AND M = b" using z by simp
qed

lemma write_base_read_base:
  "b AND M = b \<Longrightarrow> ((r AND NOT M) OR b) AND M = b" for b M :: "64 word"
  by (simp add: bit.conj_disj_distrib2 and.assoc)

lemma write_flags_keep_base:
  fixes fl M :: "64 word"
  assumes "fl AND NOT M = fl"
  shows "((r AND M) OR fl) AND M = r AND M"
proof -
  have "fl AND M = (fl AND NOT M) AND M" using assms by simp
  also have "\<dots> = 0" by (simp add: and.assoc)
  finally show ?thesis by (simp add: bit.conj_disj_distrib2 and.assoc)
qed

lemma write_flags_read_flags:
  "fl AND NOT M = fl \<Longrightarrow> ((r AND M) OR fl) AND NOT M = fl" for fl M :: "64 word"
  by (simp add: bit.conj_disj_distrib2 and.assoc)

lemma write_base_keep_flags:
  fixes b M :: "64 word"
  assumes "b AND M = b"
  shows "((r AND NOT M) OR b) AND NOT M = r AND NOT M"
proof -
  have "b AND NOT M = (b AND M) AND NOT M" using assms by simp
  also have "\<dots> = 0" by (simp add: and.assoc)
  finally show ?thesis by (simp add: bit.conj_disj_distrib2 and.assoc)
qed

text \<open>
  Claim C7. For every page-table entry, every base with no bit outside \<open>PHYS_MASK\<close> and
  every flag word with no bit inside it, \<open>set_frame_base\<close> followed by \<open>set_flags\<close>
  succeeds; afterwards \<open>frame_base\<close> is the base and the bits outside the mask are the
  flags; the write of the base leaves the bits outside the mask as they were and the write
  of the flags leaves the frame base as it was. A base with a bit outside the mask, and a
  flag word with a bit inside it, fail the assertion of their setter.
\<close>

theorem PageTableEntry_roundtrip:
  "(base AND NOT PHYS_MASK = 0 \<and> flags AND PHYS_MASK = 0 \<longrightarrow>
      (\<exists>e1 e2. set_frame_base e base = Inr e1 \<and> set_flags e1 flags = Inr e2 \<and>
         frame_base e2 = base \<and> PHYS_FLAGS (raw e2) = flags \<and>
         PHYS_FLAGS (raw e1) = PHYS_FLAGS (raw e) \<and> frame_base e2 = frame_base e1)) \<and>
   (bad_base AND NOT PHYS_MASK \<noteq> 0 \<longrightarrow>
      set_frame_base e bad_base = Inl (AssertFailed ''invalid base: %p'')) \<and>
   (bad_flags AND PHYS_MASK \<noteq> 0 \<longrightarrow>
      set_flags e bad_flags = Inl (AssertFailed ''invalig page flags: %p''))"
proof (intro conjI impI)
  assume h: "base AND NOT PHYS_MASK = 0 \<and> flags AND PHYS_MASK = 0"
  then have b: "base AND PHYS_MASK = base"
    by (simp add: within_mask_iff)
  from h have f: "flags AND NOT PHYS_MASK = flags"
    using within_mask_iff [of flags "NOT PHYS_MASK"] by simp
  define r1 where "r1 = (m_raw e AND NOT PHYS_MASK) OR base"
  define r2 where "r2 = (r1 AND PHYS_MASK) OR flags"
  let ?e1 = "e\<lparr>m_raw := r1\<rparr>"
  let ?e2 = "?e1\<lparr>m_raw := r2\<rparr>"
  have k1: "r1 AND PHYS_MASK = base"
    unfolding r1_def by (rule write_base_read_base [OF b])
  have k2: "r2 AND PHYS_MASK = r1 AND PHYS_MASK"
    unfolding r2_def by (rule write_flags_keep_base [OF f])
  have k3: "r2 AND NOT PHYS_MASK = flags"
    unfolding r2_def by (rule write_flags_read_flags [OF f])
  have k4: "r1 AND NOT PHYS_MASK = m_raw e AND NOT PHYS_MASK"
    unfolding r1_def by (rule write_base_keep_flags [OF b])
  have 1: "set_frame_base e base = Inr ?e1"
    using b by (simp add: set_frame_base_def r1_def)
  have 2: "set_flags ?e1 flags = Inr ?e2"
    using f by (simp add: set_flags_def r2_def)
  have 3: "frame_base ?e2 = base"
    by (simp add: frame_base_def k1 k2)
  have 4: "PHYS_FLAGS (raw ?e2) = flags"
    by (simp add: PHYS_FLAGS_def raw_def k3)
  have 5: "PHYS_FLAGS (raw ?e1) = PHYS_FLAGS (raw e)"
    by (simp add: PHYS_FLAGS_def raw_def k4)
  have 6: "frame_base ?e2 = frame_base ?e1"
    by (simp add: frame_base_def k2)
  from 1 2 3 4 5 6
  show "\<exists>e1 e2. set_frame_base e base = Inr e1 \<and> set_flags e1 flags = Inr e2 \<and>
         frame_base e2 = base \<and> PHYS_FLAGS (raw e2) = flags \<and>
         PHYS_FLAGS (raw e1) = PHYS_FLAGS (raw e) \<and> frame_base e2 = frame_base e1"
    by blast
next
  assume "bad_base AND NOT PHYS_MASK \<noteq> 0"
  then have "bad_base AND PHYS_MASK \<noteq> bad_base"
    by (simp add: within_mask_iff)
  then show "set_frame_base e bad_base = Inl (AssertFailed ''invalid base: %p'')"
    by (simp add: set_frame_base_def)
next
  assume "bad_flags AND PHYS_MASK \<noteq> 0"
  then have "bad_flags AND NOT PHYS_MASK \<noteq> bad_flags"
    using within_mask_iff [of bad_flags "NOT PHYS_MASK"] by simp
  then show "set_flags e bad_flags = Inl (AssertFailed ''invalig page flags: %p'')"
    by (simp add: set_flags_def)
qed

theorem PageTableEntry_roundtrip_witness:
  "(0x1000 :: 64 word) AND NOT PHYS_MASK = 0 \<and>
   (0x8000000000000003 :: 64 word) AND PHYS_MASK = 0 \<and>
   (0x1001 :: 64 word) AND NOT PHYS_MASK \<noteq> 0 \<and> (0x2000 :: 64 word) AND PHYS_MASK \<noteq> 0 \<and>
   (\<exists>e1 e2. set_frame_base \<lparr>m_raw = - 1\<rparr> 0x1000 = Inr e1 \<and>
      set_flags e1 0x8000000000000003 = Inr e2 \<and>
      frame_base e2 = 0x1000 \<and> PHYS_FLAGS (raw e2) = 0x8000000000000003 \<and>
      PHYS_FLAGS (raw e1) = PHYS_FLAGS (raw \<lparr>m_raw = - 1\<rparr>) \<and>
      frame_base e2 = frame_base e1) \<and>
   set_frame_base \<lparr>m_raw = - 1\<rparr> 0x1001 = Inl (AssertFailed ''invalid base: %p'') \<and>
   set_flags \<lparr>m_raw = - 1\<rparr> 0x2000 = Inl (AssertFailed ''invalig page flags: %p'')"
proof -
  have h1: "(0x1000 :: 64 word) AND NOT PHYS_MASK = 0 \<and>
            (0x8000000000000003 :: 64 word) AND PHYS_MASK = 0"
    by (simp add: PHYS_MASK_def)
  have h2: "(0x1001 :: 64 word) AND NOT PHYS_MASK \<noteq> 0"
    by (simp add: PHYS_MASK_def)
  have h3: "(0x2000 :: 64 word) AND PHYS_MASK \<noteq> 0"
    by (simp add: PHYS_MASK_def)
  show ?thesis
    using h1 h2 h3
      PageTableEntry_roundtrip
        [of "0x1000" "0x8000000000000003" "\<lparr>m_raw = - 1\<rparr>" "0x1001" "0x2000"]
    by blast
qed

section \<open>Properties of the register conversion\<close>

lemma kvm_to_dwarf_regs_slots:
  "kvm_to_dwarf_regs kregs regs Rax = rax kregs \<and>
   kvm_to_dwarf_regs kregs regs Rdx = rdx kregs \<and>
   kvm_to_dwarf_regs kregs regs Rcx = rdx kregs \<and>
   kvm_to_dwarf_regs kregs regs Rbx = rbx kregs \<and>
   kvm_to_dwarf_regs kregs regs Rsi = rsi kregs \<and>
   kvm_to_dwarf_regs kregs regs Rdi = rdi kregs \<and>
   kvm_to_dwarf_regs kregs regs Rbp = rbp kregs \<and>
   kvm_to_dwarf_regs kregs regs Rsp = rsp kregs \<and>
   kvm_to_dwarf_regs kregs regs ReturnAddress = rip kregs"
  by (simp add: kvm_to_dwarf_regs_def)

lemma kvm_to_dwarf_regs_ReturnAddress [simp]:
  "kvm_to_dwarf_regs kregs regs ReturnAddress = rip kregs"
  by (simp add: kvm_to_dwarf_regs_def)

text \<open>
  Claim C1. The conversion should map every hardware register to the slot of its own name.
  At a snapshot with \<open>rcx = 1\<close> and \<open>rdx = 2\<close> the slot \<open>Rcx\<close> of the result holds 2,
  the value of \<open>rdx\<close>, and not the value of \<open>rcx\<close>; the slot \<open>Rdx\<close> holds 2 as well.
\<close>

theorem kvm_to_dwarf_regs_Rcx_holds_rdx:
  "rcx example_kregs = 1 \<and> rdx example_kregs = 2 \<and>
   kvm_to_dwarf_regs example_kregs zero_regs Rcx = 2 \<and>
   kvm_to_dwarf_regs example_kregs zero_regs Rdx = 2 \<and>
   kvm_to_dwarf_regs example_kregs zero_regs Rcx \<noteq> rcx example_kregs"
  by (simp add: kvm_to_dwarf_regs_def example_kregs_def zero_regs_def)

section \<open>Properties of relocation\<close>

lemmas example_defs =
  example_file_def example_ehdr_def example_phdr_def example_shdr_def example_syms_def
  example_cstr_def example_image_def example_segments_def example_sections_def
  example_symbols_def stripped_file_def stripped_image_def

text \<open>
  Claim C3. For every position-independent image and every new load address, one call of
  \<open>set_load_addr\<close> succeeds and adds the same delta, the new load address minus the old
  one, to the entry point, to the initial break, to the virtual and physical address of
  every segment, to the address of every section and to the value of every symbol, and
  changes nothing else in these elements; so the difference of the values of any two
  symbols is the same before and after.
\<close>

theorem set_load_addr_shifts:
  assumes "type_elf p = ET_DYN"
  shows "\<exists>q. set_load_addr p a = Inr q \<and>
           load_addr q = a \<and>
           entry q = entry p + (a - load_addr p) \<and>
           initial_brk q = initial_brk p + (a - load_addr p) \<and>
           length (segments q) = length (segments p) \<and>
           length (sections q) = length (sections p) \<and>
           length (symbols q) = length (symbols p) \<and>
           (\<forall>i < length (segments p).
              segments q ! i = (segments p ! i)
                \<lparr>vaddr := vaddr (segments p ! i) + (a - load_addr p),
                 paddr := paddr (segments p ! i) + (a - load_addr p)\<rparr>) \<and>
           (\<forall>i < length (sections p).
              sections q ! i =
                (sections p ! i)\<lparr>addr := addr (sections p ! i) + (a - load_addr p)\<rparr>) \<and>
           (\<forall>i < length (symbols p).
              symbols q ! i =
                (symbols p ! i)\<lparr>value_sym := value_sym (symbols p ! i) + (a - load_addr p)\<rparr>) \<and>
           (\<forall>i < length (symbols p). \<forall>j < length (symbols p).
              value_sym (symbols q ! j) - value_sym (symbols q ! i) =
              value_sym (symbols p ! j) - value_sym (symbols p ! i))"
  using assms
  by (simp add: set_load_addr_def type_elf_def load_addr_def entry_def initial_brk_def
      segments_def sections_def symbols_def Let_def)

theorem set_load_addr_shifts_witness:
  "type_elf example_image = ET_DYN \<and>
   (\<exists>q. set_load_addr example_image 0x555555554000 = Inr q \<and>
      load_addr q = 0x555555554000 \<and>
      entry q = entry example_image + (0x555555554000 - load_addr example_image) \<and>
      initial_brk q = initial_brk example_image + (0x555555554000 - load_addr example_image) \<and>
      (\<forall>i < length (symbols example_image). \<forall>j < length (symbols example_image).
         value_sym (symbols q ! j) - value_sym (symbols q ! i) =
         value_sym (symbols example_image ! j) - value_sym (symbols example_image ! i)))"
proof -
  have h: "type_elf example_image = ET_DYN"
    by (simp add: type_elf_def example_image_def ET_DYN_def)
  show ?thesis
    using h set_load_addr_shifts [OF h, of "0x555555554000"] by blast
qed

text \<open>
  Claim C4. For every position-independent image and every pair of load addresses A and
  B, relocating to A and then to B succeeds and leaves the image in the very state that
  relocating once, straight to B, leaves it in: the same entry point, initial break,
  segments, sections and symbols. This holds from any load address, the initial load
  address 0 of a parsed position-independent image among them.
\<close>

theorem set_load_addr_twice:
  assumes "type_elf p = ET_DYN"
  shows "\<exists>pA pB. set_load_addr p A = Inr pA \<and> set_load_addr pA B = Inr pB \<and>
           set_load_addr p B = Inr pB"
  using assms
  by (simp add: set_load_addr_def type_elf_def Let_def comp_def)

theorem set_load_addr_twice_witness:
  "type_elf example_image = ET_DYN \<and> load_addr example_image = 0 \<and>
   (\<exists>pA pB. set_load_addr example_image 0x555555554000 = Inr pA \<and>
      set_load_addr pA 0x7f0000000000 = Inr pB \<and>
      set_load_addr example_image 0x7f0000000000 = Inr pB)"
proof -
  have h: "type_elf example_image = ET_DYN"
    by (simp add: type_elf_def example_image_def ET_DYN_def)
  have z: "load_addr example_image = 0"
    by (simp add: load_addr_def example_image_def)
  show ?thesis
    using h z set_load_addr_twice [OF h, of "0x555555554000" "0x7f0000000000"] by blast
qed

section \<open>Properties of the lookups\<close>

lemma section_limits_loop_first:
  "i < length secs \<Longrightarrow> name_sec (secs ! i) = name \<Longrightarrow> \<forall>j<i. name_sec (secs ! j) \<noteq> name \<Longrightarrow>
   section_limits_loop secs name = Inr (addr (secs ! i), addr (secs ! i) + size_sec (secs ! i))"
proof (induction secs arbitrary: i)
  case Nil
  then show ?case by simp
next
  case (Cons s rest)
  show ?case
  proof (cases i)
    case 0
    with Cons.prems show ?thesis by simp
  next
    case (Suc k)
    from Cons.prems(3) Suc have "name_sec s \<noteq> name" by auto
    moreover have "section_limits_loop rest name =
        Inr (addr (rest ! k), addr (rest ! k) + size_sec (rest ! k))"
      using Cons.prems Suc by (intro Cons.IH) auto
    ultimately show ?thesis using Suc by simp
  qed
qed

lemma section_limits_loop_none:
  "\<forall>s \<in> set secs. name_sec s \<noteq> name \<Longrightarrow>
   section_limits_loop secs name = Inl (AssertFailed ''not found section: %s'')"
  by (induction secs) auto

lemma symbol_limits_loop_first:
  "i < length ss \<Longrightarrow> name_sym (ss ! i) = name \<Longrightarrow> \<forall>j<i. name_sym (ss ! j) \<noteq> name \<Longrightarrow>
   symbol_limits_loop ss name =
     Inr (value_sym (ss ! i), value_sym (ss ! i) + size_sym (ss ! i))"
proof (induction ss arbitrary: i)
  case Nil
  then show ?case by simp
next
  case (Cons s rest)
  show ?case
  proof (cases i)
    case 0
    with Cons.prems show ?thesis by simp
  next
    case (Suc k)
    from Cons.prems(3) Suc have "name_sym s \<noteq> name" by auto
    moreover have "symbol_limits_loop rest name =
        Inr (value_sym (rest ! k), value_sym (rest ! k) + size_sym (rest ! k))"
      using Cons.prems Suc by (intro Cons.IH) auto
    ultimately show ?thesis using Suc by simp
  qed
qed

lemma symbol_limits_loop_none:
  "\<forall>s \<in> set ss. name_sym s \<noteq> name \<Longrightarrow>
   symbol_limits_loop ss name = Inl (AssertFailed ''not found symbol: %s'')"
  by (induction ss) auto

text \<open>
  Claim C5, as amended. For every image and every name: if a section (respectively a
  symbol) with that name exists, \<open>section_limits\<close> (respectively \<open>symbol_limits\<close>) returns
  the pair of the address and the address plus the size of the first such element; if none
  exists, the operation fails its assertion \<open>not found section\<close> (respectively
  \<open>not found symbol\<close>) and returns no value to the caller.
\<close>

theorem limits_found_or_assert:
  "(\<forall>i < length (sections p).
      name_sec (sections p ! i) = name \<and> (\<forall>j<i. name_sec (sections p ! j) \<noteq> name) \<longrightarrow>
      section_limits p name =
        Inr (addr (sections p ! i), addr (sections p ! i) + size_sec (sections p ! i))) \<and>
   ((\<forall>s \<in> set (sections p). name_sec s \<noteq> name) \<longrightarrow>
      section_limits p name = Inl (AssertFailed ''not found section: %s'')) \<and>
   (\<forall>i < length (symbols p).
      name_sym (symbols p ! i) = name' \<and> (\<forall>j<i. name_sym (symbols p ! j) \<noteq> name') \<longrightarrow>
      symbol_limits p name' =
        Inr (value_sym (symbols p ! i), value_sym (symbols p ! i) + size_sym (symbols p ! i))) \<and>
   ((\<forall>s \<in> set (symbols p). name_sym s \<noteq> name') \<longrightarrow>
      symbol_limits p name' = Inl (AssertFailed ''not found symbol: %s''))"
  unfolding section_limits_def symbol_limits_def
  using section_limits_loop_first [of _ "sections p" name]
    section_limits_loop_none [of "sections p" name]
    symbol_limits_loop_first [of _ "symbols p" name']
    symbol_limits_loop_none [of "symbols p" name']
  by blast

theorem limits_found_or_assert_witness:
  "section_limits example_image ''.text'' = Inr (0x1000, 0x1100) \<and>
   symbol_limits example_image ''helper'' = Inr (0x1040, 0x1060) \<and>
   section_limits example_image ''.bss'' = Inl (AssertFailed ''not found section: %s'') \<and>
   symbol_limits example_image ''exit'' = Inl (AssertFailed ''not found symbol: %s'')"
proof -
  note found = limits_found_or_assert [of example_image "''.text''" "''helper''"]
  note missing = limits_found_or_assert [of example_image "''.bss''" "''exit''"]
  have s1: "1 < length (sections example_image) \<and>
            name_sec (sections example_image ! 1) = ''.text'' \<and>
            (\<forall>j<1. name_sec (sections example_image ! j) \<noteq> ''.text'')"
    by (simp add: sections_def example_defs)
  have s2: "1 < length (symbols example_image) \<and>
            name_sym (symbols example_image ! 1) = ''helper'' \<and>
            (\<forall>j<1. name_sym (symbols example_image ! j) \<noteq> ''helper'')"
    by (simp add: symbols_def example_defs)
  have s3: "\<forall>s \<in> set (sections example_image). name_sec s \<noteq> ''.bss''"
    by (simp add: sections_def example_defs)
  have s4: "\<forall>s \<in> set (symbols example_image). name_sym s \<noteq> ''exit''"
    by (simp add: symbols_def example_defs)
  have a: "section_limits example_image ''.text'' =
      Inr (addr (sections example_image ! 1),
           addr (sections example_image ! 1) + size_sec (sections example_image ! 1))"
    using found s1 by blast
  have b: "symbol_limits example_image ''helper'' =
      Inr (value_sym (symbols example_image ! 1),
           value_sym (symbols example_image ! 1) + size_sym (symbols example_image ! 1))"
    using found s2 by blast
  have c: "section_limits example_image ''.bss'' = Inl (AssertFailed ''not found section: %s'')"
    using missing s3 by blast
  have d: "symbol_limits example_image ''exit'' = Inl (AssertFailed ''not found symbol: %s'')"
    using missing s4 by blast
  have e: "addr (sections example_image ! 1) = 0x1000 \<and>
           size_sec (sections example_image ! 1) = 0x100 \<and>
           value_sym (symbols example_image ! 1) = 0x1040 \<and>
           size_sym (symbols example_image ! 1) = 0x20"
    by (simp add: sections_def symbols_def example_defs)
  from a b c d e show ?thesis by simp
qed

text \<open>
  The claim as it was stated fails on the image of a file without section headers: the
  lookup of a name that is not there ends in the failed assertion, the outcome of the
  fatal errors, and not in a value handed to the caller.
\<close>

theorem limits_not_found_aborts:
  "init ''stripped'' stripped_file = Inr stripped_image \<and>
   section_limits stripped_image ''.text'' = Inl (AssertFailed ''not found section: %s'') \<and>
   symbol_limits stripped_image ''main'' = Inl (AssertFailed ''not found symbol: %s'')"
  by code_simp

lemma addr_to_symbol_loop_Some:
  "addr_to_symbol_loop ss a = Some s \<Longrightarrow>
   s \<in> set ss \<and> value_sym s \<le> a \<and> a < value_sym s + size_sym s"
  by (induction ss) (auto split: if_splits)

lemma addr_to_symbol_loop_None:
  "addr_to_symbol_loop ss a = None \<longleftrightarrow>
   (\<forall>s \<in> set ss. \<not> (value_sym s \<le> a \<and> a < value_sym s + size_sym s))"
  by (induction ss) auto

lemma addr_to_symbol_loop_first:
  "i < length ss \<Longrightarrow> value_sym (ss ! i) \<le> a \<and> a < value_sym (ss ! i) + size_sym (ss ! i) \<Longrightarrow>
   \<forall>j<i. \<not> (value_sym (ss ! j) \<le> a \<and> a < value_sym (ss ! j) + size_sym (ss ! j)) \<Longrightarrow>
   addr_to_symbol_loop ss a = Some (ss ! i)"
proof (induction ss arbitrary: i)
  case Nil
  then show ?case by simp
next
  case (Cons s rest)
  show ?case
  proof (cases i)
    case 0
    with Cons.prems show ?thesis by simp
  next
    case (Suc k)
    from Cons.prems(3) Suc have "\<not> (value_sym s \<le> a \<and> a < value_sym s + size_sym s)" by auto
    moreover have "addr_to_symbol_loop rest a = Some (rest ! k)"
      using Cons.prems Suc by (intro Cons.IH) auto
    ultimately show ?thesis using Suc by auto
  qed
qed

lemma no_wrap_interval:
  fixes v sz a :: "64 word"
  assumes "unat v + unat sz < 2 ^ 64"
  shows "(v \<le> a \<and> a < v + sz) \<longleftrightarrow> (unat v \<le> unat a \<and> unat a < unat v + unat sz)"
proof -
  have "unat (v + sz) = unat v + unat sz"
    using assms unat_add_lem [of v sz] by simp
  then show ?thesis by (simp add: word_le_nat_alt word_less_nat_alt)
qed

text \<open>
  Claim C6. For every image and every address, \<open>addr_to_symbol\<close> returns a symbol if and
  only if the interval from the value to the value plus the size of some symbol (the sum
  taken in 64 bits, as the source computes it) holds the address; the symbol returned is
  the first such symbol, and its size is not 0. Where no sum wraps around, the interval is
  the interval of natural numbers. A symbol with value 0x1000 and size 0x40 matches
  0x1020 and matches neither 0x1040 nor 0x0FFF; a symbol of size 0 matches no address.
\<close>

theorem addr_to_symbol_iff_interval:
  "((\<exists>s. addr_to_symbol p a = Some s) \<longleftrightarrow>
      (\<exists>s \<in> set (symbols p). value_sym s \<le> a \<and> a < value_sym s + size_sym s)) \<and>
   (\<forall>s. addr_to_symbol p a = Some s \<longrightarrow>
      s \<in> set (symbols p) \<and> value_sym s \<le> a \<and> a < value_sym s + size_sym s \<and>
      size_sym s \<noteq> 0) \<and>
   (\<forall>i < length (symbols p).
      (value_sym (symbols p ! i) \<le> a \<and> a < value_sym (symbols p ! i) + size_sym (symbols p ! i)) \<and>
      (\<forall>j<i. \<not> (value_sym (symbols p ! j) \<le> a \<and>
                  a < value_sym (symbols p ! j) + size_sym (symbols p ! j))) \<longrightarrow>
      addr_to_symbol p a = Some (symbols p ! i)) \<and>
   ((\<forall>s \<in> set (symbols p). unat (value_sym s) + unat (size_sym s) < 2 ^ 64) \<longrightarrow>
      ((\<exists>s. addr_to_symbol p a = Some s) \<longleftrightarrow>
       (\<exists>s \<in> set (symbols p).
          unat (value_sym s) \<le> unat a \<and> unat a < unat (value_sym s) + unat (size_sym s)))) \<and>
   (symbols p = [sy] \<and> value_sym sy = 0x1000 \<and> size_sym sy = 0x40 \<longrightarrow>
      addr_to_symbol p 0x1020 = Some sy \<and> addr_to_symbol p 0x1040 = None \<and>
      addr_to_symbol p 0x0FFF = None) \<and>
   (symbols p = [sym0] \<and> size_sym sym0 = 0 \<longrightarrow> addr_to_symbol p a = None)"
proof -
  have iff: "(\<exists>s. addr_to_symbol p a = Some s) \<longleftrightarrow>
      (\<exists>s \<in> set (symbols p). value_sym s \<le> a \<and> a < value_sym s + size_sym s)"
    using addr_to_symbol_loop_None [of "symbols p" a]
    by (auto simp: addr_to_symbol_def)
  have some: "\<forall>s. addr_to_symbol p a = Some s \<longrightarrow>
      s \<in> set (symbols p) \<and> value_sym s \<le> a \<and> a < value_sym s + size_sym s \<and> size_sym s \<noteq> 0"
  proof (intro allI impI)
    fix s assume "addr_to_symbol p a = Some s"
    then have k: "s \<in> set (symbols p) \<and> value_sym s \<le> a \<and> a < value_sym s + size_sym s"
      unfolding addr_to_symbol_def by (rule addr_to_symbol_loop_Some)
    then have "size_sym s \<noteq> 0" by auto
    with k show "s \<in> set (symbols p) \<and> value_sym s \<le> a \<and> a < value_sym s + size_sym s \<and>
      size_sym s \<noteq> 0" by simp
  qed
  have first: "\<forall>i < length (symbols p).
      (value_sym (symbols p ! i) \<le> a \<and> a < value_sym (symbols p ! i) + size_sym (symbols p ! i)) \<and>
      (\<forall>j<i. \<not> (value_sym (symbols p ! j) \<le> a \<and>
                  a < value_sym (symbols p ! j) + size_sym (symbols p ! j))) \<longrightarrow>
      addr_to_symbol p a = Some (symbols p ! i)"
    unfolding addr_to_symbol_def
    using addr_to_symbol_loop_first [of _ "symbols p" a] by blast
  have nat: "(\<forall>s \<in> set (symbols p). unat (value_sym s) + unat (size_sym s) < 2 ^ 64) \<longrightarrow>
      ((\<exists>s. addr_to_symbol p a = Some s) \<longleftrightarrow>
       (\<exists>s \<in> set (symbols p).
          unat (value_sym s) \<le> unat a \<and> unat a < unat (value_sym s) + unat (size_sym s)))"
    unfolding iff using no_wrap_interval by blast
  have ex: "symbols p = [sy] \<and> value_sym sy = 0x1000 \<and> size_sym sy = 0x40 \<longrightarrow>
      addr_to_symbol p 0x1020 = Some sy \<and> addr_to_symbol p 0x1040 = None \<and>
      addr_to_symbol p 0x0FFF = None"
    by (simp add: addr_to_symbol_def)
  have zero: "symbols p = [sym0] \<and> size_sym sym0 = 0 \<longrightarrow> addr_to_symbol p a = None"
    by (auto simp: addr_to_symbol_def)
  from iff some first nat ex zero show ?thesis by blast
qed

theorem addr_to_symbol_iff_interval_witness:
  "addr_to_symbol example_image 0x1050 = Some (example_symbols ! 1) \<and>
   addr_to_symbol (example_image\<lparr>m_symbols := [example_symbols ! 0]\<rparr>) 0x1020 =
     Some (example_symbols ! 0) \<and>
   addr_to_symbol (example_image\<lparr>m_symbols := [example_symbols ! 0]\<rparr>) 0x1040 = None \<and>
   addr_to_symbol (example_image\<lparr>m_symbols := [example_symbols ! 0]\<rparr>) 0x0FFF = None \<and>
   addr_to_symbol (example_image\<lparr>m_symbols := [(example_symbols ! 0)\<lparr>size_sym := 0\<rparr>]\<rparr>) 0x1000
     = None"
proof -
  let ?one = "example_image\<lparr>m_symbols := [example_symbols ! 0]\<rparr>"
  let ?zero = "example_image\<lparr>m_symbols := [(example_symbols ! 0)\<lparr>size_sym := 0\<rparr>]\<rparr>"
  note two = addr_to_symbol_iff_interval [of example_image "0x1050"]
  note one = addr_to_symbol_iff_interval [of ?one _ "example_symbols ! 0"]
  note zero = addr_to_symbol_iff_interval
    [of ?zero "0x1000" _ "(example_symbols ! 0)\<lparr>size_sym := 0\<rparr>"]
  have h1: "1 < length (symbols example_image) \<and>
      (value_sym (symbols example_image ! 1) \<le> 0x1050 \<and>
       0x1050 < value_sym (symbols example_image ! 1) + size_sym (symbols example_image ! 1)) \<and>
      (\<forall>j<1. \<not> (value_sym (symbols example_image ! j) \<le> 0x1050 \<and>
         0x1050 < value_sym (symbols example_image ! j) + size_sym (symbols example_image ! j)))"
    by (simp add: symbols_def example_defs)
  have h2: "symbols ?one = [example_symbols ! 0] \<and>
      value_sym (example_symbols ! 0) = 0x1000 \<and> size_sym (example_symbols ! 0) = 0x40"
    by (simp add: symbols_def example_defs)
  have h3: "symbols ?zero = [(example_symbols ! 0)\<lparr>size_sym := 0\<rparr>] \<and>
      size_sym ((example_symbols ! 0)\<lparr>size_sym := 0\<rparr>) = 0"
    by (simp add: symbols_def)
  have a: "addr_to_symbol example_image 0x1050 = Some (symbols example_image ! 1)"
    using two h1 by blast
  have b: "addr_to_symbol ?one 0x1020 = Some (example_symbols ! 0) \<and>
      addr_to_symbol ?one 0x1040 = None \<and> addr_to_symbol ?one 0x0FFF = None"
    using one h2 by blast
  have c: "addr_to_symbol ?zero 0x1000 = None"
    using zero h3 by blast
  have d: "symbols example_image = example_symbols"
    by (simp add: symbols_def example_image_def)
  from a b c d show ?thesis by simp
qed

section \<open>Properties of ElfParser::init\<close>

lemma and_not_mask_push_drop:
  "(y :: 64 word) AND NOT (mask n) = push_bit n (drop_bit n y)"
  by (rule bit_eqI) (auto simp: bit_simps)

lemma unat_and_not_mask12:
  "unat ((y :: 64 word) AND NOT (mask 12)) = (unat y div 4096) * 4096"
proof -
  have le: "(unat y div 4096) * 4096 \<le> unat y" by simp
  have lt: "unat y < 2 ^ 64" using unsigned_less [of y] by simp
  have "unat (push_bit 12 (drop_bit 12 y)) = take_bit 64 (push_bit 12 (unat (drop_bit 12 y)))"
    by (simp add: unsigned_push_bit_eq)
  also have "\<dots> = take_bit 64 ((unat y div 4096) * 4096)"
    by (simp add: unat_drop_bit_eq drop_bit_eq_div push_bit_eq_mult unat_div)
  also have "\<dots> = (unat y div 4096) * 4096"
    using le lt by (simp add: take_bit_nat_eq_self_iff)
  finally show ?thesis by (simp only: and_not_mask_push_drop)
qed

lemma PAGE_CEIL_unat:
  assumes "unat x + 4095 < 2 ^ 64"
  shows "unat (PAGE_CEIL x) = ((unat x + 4095) div 4096) * 4096"
proof -
  have m: "(PAGE_SIZE - 1 :: 64 word) = mask 12"
    by (simp add: PAGE_SIZE_def mask_eq_exp_minus_1)
  have "unat (x + 4095) = unat x + unat (4095 :: 64 word)"
    using assms unat_add_lem [of x "4095 :: 64 word"] by simp
  then have u: "unat (x + 4095) = unat x + 4095" by simp
  have "x + PAGE_SIZE - 1 = x + 4095" by (simp add: PAGE_SIZE_def)
  then have "PAGE_CEIL x = (x + 4095) AND NOT (mask 12)"
    by (simp only: PAGE_CEIL_def m)
  then show ?thesis by (simp only: unat_and_not_mask12 u)
qed

lemma get_segments_eq:
  "get_segments cs phs (segs, la, brk, ip) =
     (segs @ map mk_segment phs,
      fold (\<lambda>ph l. if p_type ph = PT_LOAD then min l (p_vaddr ph) else l) phs la,
      fold (\<lambda>ph b. if p_type ph = PT_LOAD then max b (PAGE_CEIL (p_vaddr ph + p_memsz ph)) else b) phs brk,
      fold (\<lambda>ph s. if p_type ph = PT_INTERP then cs (p_offset ph) else s) phs ip)"
  by (induction phs arbitrary: segs la brk ip) (simp_all add: mk_segment_def Let_def)

lemma Min_insert_min:
  fixes a b :: "'a :: linorder"
  assumes "finite S"
  shows "Min (insert (min a b) S) = Min (insert a (insert b S))"
proof (cases "S = {}")
  case True
  then show ?thesis by (simp add: min.commute)
next
  case False
  with assms show ?thesis by (simp add: min.assoc)
qed

lemma Max_insert_max:
  fixes a b :: "'a :: linorder"
  assumes "finite S"
  shows "Max (insert (max a b) S) = Max (insert a (insert b S))"
proof (cases "S = {}")
  case True
  then show ?thesis by (simp add: max.commute)
next
  case False
  with assms show ?thesis by (simp add: max.assoc)
qed

lemma fold_min_filter:
  fixes f :: "'a \<Rightarrow> 'b :: linorder"
  shows "fold (\<lambda>x l. if P x then min l (f x) else l) xs la =
         Min (insert la (f ` set (filter P xs)))"
proof (induction xs arbitrary: la)
  case Nil
  then show ?case by simp
next
  case (Cons x xs)
  show ?case
  proof (cases "P x")
    case True
    have "fold (\<lambda>x l. if P x then min l (f x) else l) (x # xs) la =
          Min (insert (min la (f x)) (f ` set (filter P xs)))"
      using True by (simp add: Cons.IH)
    also have "\<dots> = Min (insert la (insert (f x) (f ` set (filter P xs))))"
      by (rule Min_insert_min) simp
    finally show ?thesis using True by simp
  next
    case False
    then show ?thesis by (simp add: Cons.IH)
  qed
qed

lemma fold_max_filter:
  fixes f :: "'a \<Rightarrow> 'b :: linorder"
  shows "fold (\<lambda>x l. if P x then max l (f x) else l) xs b0 =
         Max (insert b0 (f ` set (filter P xs)))"
proof (induction xs arbitrary: b0)
  case Nil
  then show ?case by simp
next
  case (Cons x xs)
  show ?case
  proof (cases "P x")
    case True
    have "fold (\<lambda>x l. if P x then max l (f x) else l) (x # xs) b0 =
          Max (insert (max b0 (f x)) (f ` set (filter P xs)))"
      using True by (simp add: Cons.IH)
    also have "\<dots> = Max (insert b0 (insert (f x) (f ` set (filter P xs))))"
      by (rule Max_insert_max) simp
    finally show ?thesis using True by simp
  next
    case False
    then show ?thesis by (simp add: Cons.IH)
  qed
qed

lemma Min_insert_top:
  fixes S :: "64 word set"
  assumes "finite S" "S \<noteq> {}"
  shows "Min (insert (- 1) S) = Min S"
proof -
  have "Min (insert (- 1) S) = min (- 1) (Min S)"
    using assms by (rule Min_insert)
  also have "\<dots> = Min S"
    by (rule min_absorb2) (rule word_n1_ge)
  finally show ?thesis .
qed

lemma Max_insert_bot:
  fixes S :: "64 word set"
  assumes "finite S" "S \<noteq> {}"
  shows "Max (insert 0 S) = Max S"
proof -
  have "Max (insert 0 S) = max 0 (Max S)"
    using assms by (rule Max_insert)
  also have "\<dots> = Max S"
    by (rule max_absorb2) simp
  finally show ?thesis .
qed

lemma unat_Max:
  fixes S :: "64 word set"
  assumes "finite S" "S \<noteq> {}"
  shows "unat (Max S) = Max (unat ` S)"
  by (rule mono_Max_commute [OF _ assms]) (simp add: mono_def word_le_nat_alt)

lemma init_Inr_fields:
  assumes "init path f = Inr p"
  shows "m_segments p = map mk_segment (map (phdr f) [0..<unat (e_phnum (ehdr f))]) \<and>
         m_load_addr p = fold (\<lambda>ph l. if p_type ph = PT_LOAD then min l (p_vaddr ph) else l)
                           (map (phdr f) [0..<unat (e_phnum (ehdr f))]) (- 1) \<and>
         m_initial_brk p = fold (\<lambda>ph b. if p_type ph = PT_LOAD
                                       then max b (PAGE_CEIL (p_vaddr ph + p_memsz ph)) else b)
                           (map (phdr f) [0..<unat (e_phnum (ehdr f))]) 0 \<and>
         m_type p = e_type (ehdr f) \<and>
         (m_type p = ET_DYN \<longrightarrow> m_load_addr p = 0)"
  using assms
  by (auto simp: init_def Let_def get_segments_eq split: if_splits sum.splits)

lemma loadable_of_phdrs:
  "filter (\<lambda>s. type_seg s = PT_LOAD) (map mk_segment phs) =
   map mk_segment (filter (\<lambda>ph. p_type ph = PT_LOAD) phs)"
  by (induction phs) (simp_all add: mk_segment_def)

text \<open>
  Claim C2. For every image that \<open>init\<close> accepts and that has at least one loadable
  (\<open>PT_LOAD\<close>) segment, \<open>load_addr\<close> is the minimum of the virtual addresses of the
  loadable segments and \<open>initial_brk\<close> is the maximum, over the loadable segments, of
  \<open>PAGE_CEIL\<close> of the virtual address plus the memory size (both in the 64-bit unsigned
  arithmetic of the source); the other segments take no part in either value. Where no
  sum wraps around, \<open>PAGE_CEIL\<close> is the next multiple of 4096, so \<open>initial_brk\<close> is the
  largest page ceiling as a natural number.
\<close>

theorem init_load_addr_initial_brk:
  assumes "init path f = Inr p" and "loadable p \<noteq> []"
  shows "segments p = map (\<lambda>i. mk_segment (phdr f i)) [0..<unat (e_phnum (ehdr f))] \<and>
         load_addr p = Min (vaddr ` set (loadable p)) \<and>
         initial_brk p = Max ((\<lambda>s. PAGE_CEIL (vaddr s + memsize s)) ` set (loadable p)) \<and>
         ((\<forall>s \<in> set (loadable p). unat (vaddr s) + unat (memsize s) + 4095 < 2 ^ 64) \<longrightarrow>
          unat (initial_brk p) =
            Max ((\<lambda>s. ((unat (vaddr s) + unat (memsize s) + 4095) div 4096) * 4096)
                   ` set (loadable p)))"
proof -
  define phs where "phs = map (phdr f) [0..<unat (e_phnum (ehdr f))]"
  define L where "L = filter (\<lambda>ph. p_type ph = PT_LOAD) phs"
  note flds = init_Inr_fields [OF assms(1), folded phs_def]
  have segs: "segments p = map mk_segment phs"
    using flds by (simp add: segments_def)
  have lo: "loadable p = map mk_segment L"
    by (simp add: loadable_def segs L_def loadable_of_phdrs)
  with assms(2) have ne: "L \<noteq> []" by auto
  have va: "vaddr ` set (loadable p) = p_vaddr ` set L"
    by (auto simp: lo mk_segment_def image_iff)
  have ce: "(\<lambda>s. PAGE_CEIL (vaddr s + memsize s)) ` set (loadable p) =
            (\<lambda>ph. PAGE_CEIL (p_vaddr ph + p_memsz ph)) ` set L"
    by (auto simp: lo mk_segment_def image_iff)
  have "load_addr p = Min (insert (- 1) (p_vaddr ` set L))"
    using flds by (simp add: load_addr_def fold_min_filter L_def)
  also have "\<dots> = Min (p_vaddr ` set L)"
    using ne by (intro Min_insert_top) auto
  finally have 1: "load_addr p = Min (vaddr ` set (loadable p))"
    by (simp add: va)
  have "initial_brk p = Max (insert 0 ((\<lambda>ph. PAGE_CEIL (p_vaddr ph + p_memsz ph)) ` set L))"
    using flds by (simp add: initial_brk_def fold_max_filter L_def)
  also have "\<dots> = Max ((\<lambda>ph. PAGE_CEIL (p_vaddr ph + p_memsz ph)) ` set L)"
    using ne by (intro Max_insert_bot) auto
  finally have 2: "initial_brk p = Max ((\<lambda>s. PAGE_CEIL (vaddr s + memsize s)) ` set (loadable p))"
    by (simp add: ce)
  have 3: "unat (initial_brk p) =
            Max ((\<lambda>s. ((unat (vaddr s) + unat (memsize s) + 4095) div 4096) * 4096)
                   ` set (loadable p))"
    if nw: "\<forall>s \<in> set (loadable p). unat (vaddr s) + unat (memsize s) + 4095 < 2 ^ 64"
  proof -
    have each: "unat (PAGE_CEIL (vaddr s + memsize s)) =
                ((unat (vaddr s) + unat (memsize s) + 4095) div 4096) * 4096"
      if "s \<in> set (loadable p)" for s
    proof -
      from nw that have b: "unat (vaddr s) + unat (memsize s) + 4095 < 2 ^ 64" by blast
      then have "unat (vaddr s) + unat (memsize s) < 2 ^ 64" by simp
      then have "unat (vaddr s + memsize s) = unat (vaddr s) + unat (memsize s)"
        using unat_add_lem [of "vaddr s" "memsize s"] by simp
      with b PAGE_CEIL_unat [of "vaddr s + memsize s"] show ?thesis by simp
    qed
    have nel: "loadable p \<noteq> []" by (rule assms(2))
    have "unat (initial_brk p) =
          Max (unat ` (\<lambda>s. PAGE_CEIL (vaddr s + memsize s)) ` set (loadable p))"
      unfolding 2 using nel by (intro unat_Max) auto
    also have "unat ` (\<lambda>s. PAGE_CEIL (vaddr s + memsize s)) ` set (loadable p) =
          (\<lambda>s. ((unat (vaddr s) + unat (memsize s) + 4095) div 4096) * 4096) ` set (loadable p)"
      unfolding image_image using each by (intro image_cong) auto
    finally show ?thesis .
  qed
  have 0: "segments p = map (\<lambda>i. mk_segment (phdr f i)) [0..<unat (e_phnum (ehdr f))]"
    by (simp add: segs phs_def comp_def)
  from 0 1 2 3 show ?thesis by blast
qed

theorem init_load_addr_initial_brk_witness:
  "init ''prog'' example_file = Inr example_image \<and> loadable example_image \<noteq> [] \<and>
   load_addr example_image = Min (vaddr ` set (loadable example_image)) \<and>
   initial_brk example_image =
     Max ((\<lambda>s. PAGE_CEIL (vaddr s + memsize s)) ` set (loadable example_image)) \<and>
   load_addr example_image = 0 \<and> initial_brk example_image = 0x4000"
proof -
  have h1: "init ''prog'' example_file = Inr example_image"
    by code_simp
  have h2: "loadable example_image \<noteq> []"
    by code_simp
  have v: "load_addr example_image = 0 \<and> initial_brk example_image = 0x4000"
    by (simp add: load_addr_def initial_brk_def example_image_def)
  show ?thesis
    using h1 h2 v init_load_addr_initial_brk [OF h1 h2] by blast
qed

section \<open>Properties of the stack traces\<close>

lemma section_limits_loop_found:
  "\<exists>s \<in> set secs. name_sec s = name \<Longrightarrow> \<exists>r. section_limits_loop secs name = Inr r"
  by (induction secs) auto

lemma has_text_limits: "has_text elf \<Longrightarrow> \<exists>r. section_limits elf ''.text'' = Inr r"
  unfolding has_text_def section_limits_def by (rule section_limits_loop_found)

lemma elf_with_addr_in_text_owner:
  "\<forall>elf \<in> set elfs. has_text elf \<Longrightarrow>
   elf_with_addr_in_text elfs a = Inr (text_owner elfs a)"
proof (induction elfs)
  case Nil
  then show ?case by (simp add: text_owner_def)
next
  case (Cons e es)
  from Cons.prems obtain r where r: "section_limits e ''.text'' = Inr r"
    using has_text_limits [of e] by auto
  from Cons have ih: "elf_with_addr_in_text es a = Inr (text_owner es a)" by simp
  show ?case using r ih by (simp add: text_owner_def text_contains_def)
qed

lemma text_owner_None_iff:
  "text_owner elfs a = None \<longleftrightarrow> (\<forall>elf \<in> set elfs. \<not> text_contains elf a)"
  by (auto simp: text_owner_def find_None_iff)

lemma elfs_loop_step:
  assumes "\<forall>elf \<in> set elfs. has_text elf"
  shows "get_stacktrace_elfs_loop nf elfs n i regs mmu acc =
     (case text_owner elfs (regs ReturnAddress) of
        None \<Rightarrow> Inr acc
      | Some elf \<Rightarrow>
          if Suc i < n
          then
            (if fst (nf (m_debug elf)
                      (if type_elf elf = ET_DYN
                       then regs(ReturnAddress := regs ReturnAddress - load_addr elf) else regs) mmu)
             then get_stacktrace_elfs_loop nf elfs n (Suc i)
                    (fst (snd (nf (m_debug elf)
                      (if type_elf elf = ET_DYN
                       then regs(ReturnAddress := regs ReturnAddress - load_addr elf) else regs) mmu)))
                    (snd (snd (nf (m_debug elf)
                      (if type_elf elf = ET_DYN
                       then regs(ReturnAddress := regs ReturnAddress - load_addr elf) else regs) mmu)))
                    (acc @ [(regs ReturnAddress, elf)])
             else Inr (acc @ [(regs ReturnAddress, elf)]))
          else Inr (acc @ [(regs ReturnAddress, elf)]))"
  by (subst get_stacktrace_elfs_loop.simps)
     (simp add: elf_with_addr_in_text_owner [OF assms] Let_def split: option.splits prod.splits)

lemma elfs_loop_trace:
  assumes "\<forall>elf \<in> set elfs. has_text elf"
  shows "\<exists>t. get_stacktrace_elfs_loop nf elfs n i regs mmu acc = Inr (acc @ t) \<and>
           (\<forall>(a, elf) \<in> set t. text_owner elfs a = Some elf) \<and>
           length t \<le> max 1 (n - i) \<and>
           (text_owner elfs (regs ReturnAddress) = None \<longrightarrow> t = []) \<and>
           (\<forall>elf. text_owner elfs (regs ReturnAddress) = Some elf \<longrightarrow>
              t \<noteq> [] \<and> hd t = (regs ReturnAddress, elf))"
proof (induction "n - i" arbitrary: i regs mmu acc)
  case 0
  then have "\<not> Suc i < n" by simp
  then show ?case
    by (subst elfs_loop_step [OF assms]) (auto split: option.splits)
next
  case (Suc k)
  show ?case
  proof (cases "text_owner elfs (regs ReturnAddress)")
    case None
    then show ?thesis by (subst elfs_loop_step [OF assms]) simp
  next
    case (Some elf)
    let ?regs1 = "if type_elf elf = ET_DYN
                  then regs(ReturnAddress := regs ReturnAddress - load_addr elf) else regs"
    let ?r = "nf (m_debug elf) ?regs1 mmu"
    show ?thesis
    proof (cases "Suc i < n \<and> fst ?r")
      case False
      then show ?thesis using Some
        by (subst elfs_loop_step [OF assms]) auto
    next
      case True
      from Suc.hyps(2) True have k: "k = n - Suc i" by simp
      have "\<exists>t. get_stacktrace_elfs_loop nf elfs n (Suc i) (fst (snd ?r)) (snd (snd ?r))
            (acc @ [(regs ReturnAddress, elf)]) = Inr ((acc @ [(regs ReturnAddress, elf)]) @ t) \<and>
           (\<forall>(a, elf) \<in> set t. text_owner elfs a = Some elf) \<and>
           length t \<le> max 1 (n - Suc i) \<and>
           (text_owner elfs (fst (snd ?r) ReturnAddress) = None \<longrightarrow> t = []) \<and>
           (\<forall>elf. text_owner elfs (fst (snd ?r) ReturnAddress) = Some elf \<longrightarrow>
              t \<noteq> [] \<and> hd t = (fst (snd ?r) ReturnAddress, elf))"
        by (rule Suc.hyps(1) [OF k])
      then obtain t where t: "get_stacktrace_elfs_loop nf elfs n (Suc i) (fst (snd ?r)) (snd (snd ?r))
            (acc @ [(regs ReturnAddress, elf)]) = Inr ((acc @ [(regs ReturnAddress, elf)]) @ t)"
          and own: "\<forall>(a, elf) \<in> set t. text_owner elfs a = Some elf"
          and len: "length t \<le> max 1 (n - Suc i)"
        by blast
      have eq: "get_stacktrace_elfs_loop nf elfs n i regs mmu acc =
            Inr (acc @ ((regs ReturnAddress, elf) # t))"
        using Some True t by (subst elfs_loop_step [OF assms]) simp
      have len': "length ((regs ReturnAddress, elf) # t) \<le> max 1 (n - i)"
        using len True by auto
      show ?thesis
        using eq own len' Some by (intro exI [of _ "(regs ReturnAddress, elf) # t"]) auto
    qed
  qed
qed

lemma elfs_top_walk:
  assumes "\<forall>elf \<in> set elfs. has_text elf"
  shows "\<exists>t. get_stacktrace_elfs nf regs0 elfs kregs n mmu0 = Inr t \<and>
            (\<forall>(a, elf) \<in> set t. text_owner elfs a = Some elf) \<and>
            length t \<le> max 1 n \<and>
            (text_owner elfs (rip kregs) = None \<longrightarrow> t = []) \<and>
            (\<forall>elf. text_owner elfs (rip kregs) = Some elf \<longrightarrow>
               t \<noteq> [] \<and> hd t = (rip kregs, elf))"
    using elfs_loop_trace [OF assms, of nf n 0 "kvm_to_dwarf_regs kregs regs0" mmu0 "[]"]
    by (simp add: get_stacktrace_elfs_def)

lemma elfs_loop_stop:
  assumes "\<forall>elf \<in> set elfs. has_text elf"
    and "text_owner elfs (regs ReturnAddress) = Some elf"
    and "\<not> Suc i < n \<or>
         \<not> fst (nf (m_debug elf)
                  (if type_elf elf = ET_DYN
                   then regs(ReturnAddress := regs ReturnAddress - load_addr elf)
                   else regs) mmu)"
  shows "get_stacktrace_elfs_loop nf elfs n i regs mmu acc =
         Inr (acc @ [(regs ReturnAddress, elf)])"
proof -
  define r where "r = nf (m_debug elf)
      (if type_elf elf = ET_DYN
       then regs(ReturnAddress := regs ReturnAddress - load_addr elf) else regs) mmu"
  from assms(3) have s: "\<not> Suc i < n \<or> \<not> fst r"
    unfolding r_def .
  have "get_stacktrace_elfs_loop nf elfs n i regs mmu acc =
      (if Suc i < n
       then if fst r
            then get_stacktrace_elfs_loop nf elfs n (Suc i) (fst (snd r)) (snd (snd r))
                   (acc @ [(regs ReturnAddress, elf)])
            else Inr (acc @ [(regs ReturnAddress, elf)])
       else Inr (acc @ [(regs ReturnAddress, elf)]))"
    unfolding r_def
    by (subst elfs_loop_step [OF assms(1)]) (simp only: assms(2) option.case)
  with s show ?thesis by auto
qed

lemma elfs_loop_continue:
  assumes "\<forall>elf \<in> set elfs. has_text elf"
    and "text_owner elfs (regs ReturnAddress) = Some elf"
    and "Suc i < n"
    and "fst (nf (m_debug elf)
               (if type_elf elf = ET_DYN
                then regs(ReturnAddress := regs ReturnAddress - load_addr elf)
                else regs) mmu)"
  shows "get_stacktrace_elfs_loop nf elfs n i regs mmu acc =
         get_stacktrace_elfs_loop nf elfs n (Suc i)
           (fst (snd (nf (m_debug elf)
               (if type_elf elf = ET_DYN
                then regs(ReturnAddress := regs ReturnAddress - load_addr elf)
                else regs) mmu)))
           (snd (snd (nf (m_debug elf)
               (if type_elf elf = ET_DYN
                then regs(ReturnAddress := regs ReturnAddress - load_addr elf)
                else regs) mmu)))
           (acc @ [(regs ReturnAddress, elf)])"
proof -
  define r where "r = nf (m_debug elf)
      (if type_elf elf = ET_DYN
       then regs(ReturnAddress := regs ReturnAddress - load_addr elf) else regs) mmu"
  from assms(4) have f: "fst r"
    unfolding r_def .
  have "get_stacktrace_elfs_loop nf elfs n i regs mmu acc =
      (if Suc i < n
       then if fst r
            then get_stacktrace_elfs_loop nf elfs n (Suc i) (fst (snd r)) (snd (snd r))
                   (acc @ [(regs ReturnAddress, elf)])
            else Inr (acc @ [(regs ReturnAddress, elf)])
       else Inr (acc @ [(regs ReturnAddress, elf)]))"
    unfolding r_def
    by (subst elfs_loop_step [OF assms(1)]) (simp only: assms(2) option.case)
  with f assms(3) have "get_stacktrace_elfs_loop nf elfs n i regs mmu acc =
      get_stacktrace_elfs_loop nf elfs n (Suc i) (fst (snd r)) (snd (snd r))
        (acc @ [(regs ReturnAddress, elf)])"
    by simp
  then show ?thesis unfolding r_def .
qed

lemma elfs_loop_continue_all:
  assumes "\<forall>elf \<in> set elfs. has_text elf"
  shows "\<forall>elf. text_owner elfs (regs ReturnAddress) = Some elf \<and> Suc i < n \<and>
           fst (nf (m_debug elf)
                 (if type_elf elf = ET_DYN
                  then regs(ReturnAddress := regs ReturnAddress - load_addr elf)
                  else regs) mmu) \<longrightarrow>
           get_stacktrace_elfs_loop nf elfs n i regs mmu acc =
           get_stacktrace_elfs_loop nf elfs n (Suc i)
             (fst (snd (nf (m_debug elf)
                 (if type_elf elf = ET_DYN
                  then regs(ReturnAddress := regs ReturnAddress - load_addr elf)
                  else regs) mmu)))
             (snd (snd (nf (m_debug elf)
                 (if type_elf elf = ET_DYN
                  then regs(ReturnAddress := regs ReturnAddress - load_addr elf)
                  else regs) mmu)))
             (acc @ [(regs ReturnAddress, elf)])"
proof (intro allI impI)
  fix elf
  assume a: "text_owner elfs (regs ReturnAddress) = Some elf \<and> Suc i < n \<and>
           fst (nf (m_debug elf)
                 (if type_elf elf = ET_DYN
                  then regs(ReturnAddress := regs ReturnAddress - load_addr elf)
                  else regs) mmu)"
  show "get_stacktrace_elfs_loop nf elfs n i regs mmu acc =
           get_stacktrace_elfs_loop nf elfs n (Suc i)
             (fst (snd (nf (m_debug elf)
                 (if type_elf elf = ET_DYN
                  then regs(ReturnAddress := regs ReturnAddress - load_addr elf)
                  else regs) mmu)))
             (snd (snd (nf (m_debug elf)
                 (if type_elf elf = ET_DYN
                  then regs(ReturnAddress := regs ReturnAddress - load_addr elf)
                  else regs) mmu)))
             (acc @ [(regs ReturnAddress, elf)])"
    by (rule elfs_loop_continue
          [where elfs = elfs and regs = regs and elf = elf and i = i and n = n and nf = nf
             and mmu = mmu and acc = acc,
           OF assms a [THEN conjunct1] a [THEN conjunct2, THEN conjunct1]
             a [THEN conjunct2, THEN conjunct2]])
qed

lemma elfs_top_is_loop:
  "get_stacktrace_elfs nf regs0 elfs kregs n mmu0 =
     get_stacktrace_elfs_loop nf elfs n 0 (kvm_to_dwarf_regs kregs regs0) mmu0 [] \<and>
   kvm_to_dwarf_regs kregs regs0 ReturnAddress = rip kregs"
  by (simp add: get_stacktrace_elfs_def)

lemma has_text_example_lib: "has_text example_lib"
  by (simp add: has_text_def sections_def example_lib_def example_image_def
      example_sections_def)

lemma elfs_loop_walk:
  assumes "\<forall>elf \<in> set elfs. has_text elf"
  shows "\<exists>t. get_stacktrace_elfs_loop nf elfs n i regs mmu acc = Inr (acc @ t) \<and>
            (\<forall>(a, elf) \<in> set t. text_owner elfs a = Some elf) \<and>
            length t \<le> max 1 (n - i) \<and>
            (text_owner elfs (regs ReturnAddress) = None \<longrightarrow> t = []) \<and>
            (\<forall>elf. text_owner elfs (regs ReturnAddress) = Some elf \<longrightarrow>
               t \<noteq> [] \<and> hd t = (regs ReturnAddress, elf)) \<and>
            (\<forall>elf. text_owner elfs (regs ReturnAddress) = Some elf \<and> \<not> Suc i < n \<longrightarrow>
               t = [(regs ReturnAddress, elf)]) \<and>
            (\<forall>elf. text_owner elfs (regs ReturnAddress) = Some elf \<and>
               \<not> fst (nf (m_debug elf)
                         (if type_elf elf = ET_DYN
                          then regs(ReturnAddress := regs ReturnAddress - load_addr elf)
                          else regs) mmu) \<longrightarrow>
               t = [(regs ReturnAddress, elf)])"
proof -
  from elfs_loop_trace [OF assms, of nf n i regs mmu acc]
  obtain t where T: "get_stacktrace_elfs_loop nf elfs n i regs mmu acc = Inr (acc @ t) \<and>
           (\<forall>(a, elf) \<in> set t. text_owner elfs a = Some elf) \<and>
           length t \<le> max 1 (n - i) \<and>
           (text_owner elfs (regs ReturnAddress) = None \<longrightarrow> t = []) \<and>
           (\<forall>elf. text_owner elfs (regs ReturnAddress) = Some elf \<longrightarrow>
              t \<noteq> [] \<and> hd t = (regs ReturnAddress, elf))" ..
  then have eq: "get_stacktrace_elfs_loop nf elfs n i regs mmu acc = Inr (acc @ t)" by (rule conjunct1)
  have s1: "\<forall>elf. text_owner elfs (regs ReturnAddress) = Some elf \<and> \<not> Suc i < n \<longrightarrow>
               t = [(regs ReturnAddress, elf)]"
  proof (intro allI impI)
    fix elf assume a: "text_owner elfs (regs ReturnAddress) = Some elf \<and> \<not> Suc i < n"
    then have "get_stacktrace_elfs_loop nf elfs n i regs mmu acc =
         Inr (acc @ [(regs ReturnAddress, elf)])"
      by (intro elfs_loop_stop [OF assms]) simp_all
    with eq show "t = [(regs ReturnAddress, elf)]" by simp
  qed
  have s2: "\<forall>elf. text_owner elfs (regs ReturnAddress) = Some elf \<and>
               \<not> fst (nf (m_debug elf)
                         (if type_elf elf = ET_DYN
                          then regs(ReturnAddress := regs ReturnAddress - load_addr elf)
                          else regs) mmu) \<longrightarrow>
               t = [(regs ReturnAddress, elf)]"
  proof (intro allI impI)
    fix elf assume a: "text_owner elfs (regs ReturnAddress) = Some elf \<and>
               \<not> fst (nf (m_debug elf)
                         (if type_elf elf = ET_DYN
                          then regs(ReturnAddress := regs ReturnAddress - load_addr elf)
                          else regs) mmu)"
    then have "get_stacktrace_elfs_loop nf elfs n i regs mmu acc =
         Inr (acc @ [(regs ReturnAddress, elf)])"
      by (intro elfs_loop_stop [OF assms]) (rule conjunct1, assumption, rule disjI2, rule conjunct2, assumption)
    with eq show "t = [(regs ReturnAddress, elf)]" by simp
  qed
  from T have T2: "\<forall>(a, elf) \<in> set t. text_owner elfs a = Some elf"
    by (elim conjE)
  from T have T3: "length t \<le> max 1 (n - i)"
    by (elim conjE)
  from T have T4: "text_owner elfs (regs ReturnAddress) = None \<longrightarrow> t = []"
    by (elim conjE)
  from T have T5: "\<forall>elf. text_owner elfs (regs ReturnAddress) = Some elf \<longrightarrow>
              t \<noteq> [] \<and> hd t = (regs ReturnAddress, elf)"
    by (elim conjE)
  show ?thesis
    by (intro exI [of _ t] conjI) (rule eq T2 T3 T4 T5 s1 s2)+
qed

lemma has_text_example: "has_text example_image"
  by (simp add: has_text_def sections_def example_image_def example_sections_def)

text \<open>
  Claim C9, as amended. In multi-image unwinding over images that all have a section
  named \<open>.text\<close>: the walk returns a trace and fails no assertion; every recorded pair of
  an address and an image has the first image, in the given order, whose \<open>.text\<close> range
  holds that address; the trace has at most as many pairs as the frame cap (one pair when
  the cap is 0). The walk is the loop started at counter 0 with the converted registers
  and the empty trace. At every step of the walk, whatever the counter, the registers, the
  memory reader and the trace so far: the step returns the trace so far extended by the
  pairs of the rest of the walk, by nothing if no \<open>.text\<close> range holds the current return
  address, and by the one pair of the current return address and its image if the
  incremented counter reaches the frame cap or if \<open>next_frame\<close> of that image reports no
  further frame; and if an image owns the address, the incremented counter is below the
  cap and \<open>next_frame\<close> of that image reports a frame, the step records the pair and is
  the next step, taken at the incremented counter with the registers and the memory reader
  as \<open>next_frame\<close> left them (called on the return address less the load address for a
  position-independent image).
\<close>

theorem get_stacktrace_elfs_owner_and_stop:
  assumes "\<forall>elf \<in> set elfs. has_text elf"
  shows "(\<exists>t. get_stacktrace_elfs nf regs0 elfs kregs n mmu0 = Inr t \<and>
            (\<forall>(a, elf) \<in> set t. text_owner elfs a = Some elf) \<and>
            length t \<le> max 1 n \<and>
            (text_owner elfs (rip kregs) = None \<longrightarrow> t = []) \<and>
            (\<forall>elf. text_owner elfs (rip kregs) = Some elf \<longrightarrow>
               t \<noteq> [] \<and> hd t = (rip kregs, elf))) \<and>
         (\<exists>t. get_stacktrace_elfs_loop nf elfs n i regs mmu acc = Inr (acc @ t) \<and>
            (\<forall>(a, elf) \<in> set t. text_owner elfs a = Some elf) \<and>
            length t \<le> max 1 (n - i) \<and>
            (text_owner elfs (regs ReturnAddress) = None \<longrightarrow> t = []) \<and>
            (\<forall>elf. text_owner elfs (regs ReturnAddress) = Some elf \<longrightarrow>
               t \<noteq> [] \<and> hd t = (regs ReturnAddress, elf)) \<and>
            (\<forall>elf. text_owner elfs (regs ReturnAddress) = Some elf \<and> \<not> Suc i < n \<longrightarrow>
               t = [(regs ReturnAddress, elf)]) \<and>
            (\<forall>elf. text_owner elfs (regs ReturnAddress) = Some elf \<and>
               \<not> fst (nf (m_debug elf)
                         (if type_elf elf = ET_DYN
                          then regs(ReturnAddress := regs ReturnAddress - load_addr elf)
                          else regs) mmu) \<longrightarrow>
               t = [(regs ReturnAddress, elf)])) \<and>
         (get_stacktrace_elfs nf regs0 elfs kregs n mmu0 =
            get_stacktrace_elfs_loop nf elfs n 0 (kvm_to_dwarf_regs kregs regs0) mmu0 [] \<and>
          kvm_to_dwarf_regs kregs regs0 ReturnAddress = rip kregs) \<and>
         (\<forall>elf. text_owner elfs (regs ReturnAddress) = Some elf \<and> Suc i < n \<and>
            fst (nf (m_debug elf)
                  (if type_elf elf = ET_DYN
                   then regs(ReturnAddress := regs ReturnAddress - load_addr elf)
                   else regs) mmu) \<longrightarrow>
            get_stacktrace_elfs_loop nf elfs n i regs mmu acc =
            get_stacktrace_elfs_loop nf elfs n (Suc i)
              (fst (snd (nf (m_debug elf)
                  (if type_elf elf = ET_DYN
                   then regs(ReturnAddress := regs ReturnAddress - load_addr elf)
                   else regs) mmu)))
              (snd (snd (nf (m_debug elf)
                  (if type_elf elf = ET_DYN
                   then regs(ReturnAddress := regs ReturnAddress - load_addr elf)
                   else regs) mmu)))
              (acc @ [(regs ReturnAddress, elf)]))"
  by (intro conjI)
     (rule elfs_top_walk [OF assms], rule elfs_loop_walk [OF assms],
      rule elfs_top_is_loop [THEN conjunct1], rule elfs_top_is_loop [THEN conjunct2],
      rule elfs_loop_continue_all [OF assms])

theorem get_stacktrace_elfs_owner_and_stop_witness:
  "has_text example_image \<and> has_text example_lib \<and>
   set_load_addr (example_image\<lparr>m_path := ''lib.so''\<rparr>) 0x10000 = Inr example_lib \<and>
   text_owner [example_image, example_lib] 0x1020 = Some example_image \<and>
   text_owner [example_image, example_lib] 0x11050 = Some example_lib \<and>
   text_owner [example_image, example_lib] 0x9000 = None \<and>
   text_owner [example_image, example_image\<lparr>m_path := ''copy''\<rparr>] 0x1020 = Some example_image \<and>
   get_stacktrace_elfs crossing_next_frame zero_regs [example_image, example_lib]
     example_kregs 8 () = Inr [(0x1020, example_image), (0x11050, example_lib)] \<and>
   get_stacktrace_elfs crossing_next_frame zero_regs [example_image, example_lib]
     example_kregs 1 () = Inr [(0x1020, example_image)]"
proof -
  let ?E = "[example_image, example_lib]"
  let ?R0 = "kvm_to_dwarf_regs example_kregs zero_regs"
  let ?r = "crossing_next_frame (m_debug example_image)
      (if type_elf example_image = ET_DYN
       then ?R0(ReturnAddress := ?R0 ReturnAddress - load_addr example_image)
       else ?R0) ()"
  have h: "\<forall>elf \<in> set ?E. has_text elf"
    by (simp add: has_text_example has_text_example_lib)
  note walk = get_stacktrace_elfs_owner_and_stop
      [OF h, of crossing_next_frame zero_regs example_kregs 8 "()" 0 ?R0 "()" "[]"]
  note at_cap = get_stacktrace_elfs_owner_and_stop
      [OF h, of crossing_next_frame zero_regs example_kregs 1 "()" 0 ?R0 "()" "[]"]
  have own0: "text_owner ?E (?R0 ReturnAddress) = Some example_image"
    by code_simp
  have lt0: "Suc 0 < 8"
    by simp
  have more0: "fst ?r"
    by code_simp
  have top: "get_stacktrace_elfs crossing_next_frame zero_regs ?E example_kregs 8 () =
      get_stacktrace_elfs_loop crossing_next_frame ?E 8 0 ?R0 () []"
    by (rule walk [THEN conjunct2, THEN conjunct2, THEN conjunct1, THEN conjunct1])
  have step0: "get_stacktrace_elfs_loop crossing_next_frame ?E 8 0 ?R0 () [] =
      get_stacktrace_elfs_loop crossing_next_frame ?E 8 (Suc 0) (fst (snd ?r)) (snd (snd ?r))
        ([] @ [(?R0 ReturnAddress, example_image)])"
    by (rule walk [THEN conjunct2, THEN conjunct2, THEN conjunct2,
          THEN spec [of _ example_image], THEN mp, OF conjI [OF own0 conjI [OF lt0 more0]]])
  have rest: "get_stacktrace_elfs_loop crossing_next_frame ?E 8 (Suc 0) (fst (snd ?r))
        (snd (snd ?r)) ([] @ [(?R0 ReturnAddress, example_image)]) =
      Inr [(0x1020, example_image), (0x11050, example_lib)]"
    by code_simp
  have trace: "get_stacktrace_elfs crossing_next_frame zero_regs ?E example_kregs 8 () =
      Inr [(0x1020, example_image), (0x11050, example_lib)]"
    by (rule trans [OF top trans [OF step0 rest]])
  have top1: "get_stacktrace_elfs crossing_next_frame zero_regs ?E example_kregs 1 () =
      get_stacktrace_elfs_loop crossing_next_frame ?E 1 0 ?R0 () []"
    by (rule at_cap [THEN conjunct2, THEN conjunct2, THEN conjunct1, THEN conjunct1])
  have cap: "get_stacktrace_elfs_loop crossing_next_frame ?E 1 0 ?R0 () [] =
      Inr [(0x1020, example_image)]"
    by code_simp
  have facts: "set_load_addr (example_image\<lparr>m_path := ''lib.so''\<rparr>) 0x10000 = Inr example_lib \<and>
      text_owner ?E 0x1020 = Some example_image \<and>
      text_owner ?E 0x11050 = Some example_lib \<and>
      text_owner ?E 0x9000 = None \<and>
      text_owner [example_image, example_image\<lparr>m_path := ''copy''\<rparr>] 0x1020 = Some example_image"
    by code_simp
  show ?thesis
    by (intro conjI)
       (rule has_text_example, rule has_text_example_lib,
        rule facts [THEN conjunct1],
        rule facts [THEN conjunct2, THEN conjunct1],
        rule facts [THEN conjunct2, THEN conjunct2, THEN conjunct1],
        rule facts [THEN conjunct2, THEN conjunct2, THEN conjunct2, THEN conjunct1],
        rule facts [THEN conjunct2, THEN conjunct2, THEN conjunct2, THEN conjunct2],
        rule trace, rule trans [OF top1 cap])
qed

text \<open>
  The claim as it was stated fails when an image without a \<open>.text\<close> section is in the
  list. The walk over the example image alone returns the two pairs it recorded and stops
  at 0x9000, which no image owns. With the image of the file without section headers after
  it in the list, the same walk looks 0x9000 up in that image as well, the lookup of
  \<open>.text\<close> fails its assertion, and the two recorded pairs are not returned.
\<close>

theorem get_stacktrace_elfs_aborts_without_text:
  "init ''stripped'' stripped_file = Inr stripped_image \<and>
   text_contains example_image 0x9000 = False \<and>
   text_contains stripped_image 0x9000 = False \<and>
   get_stacktrace_elfs example_next_frame zero_regs [example_image] example_kregs 8 () =
     Inr [(0x1020, example_image), (0x1050, example_image)] \<and>
   get_stacktrace_elfs example_next_frame zero_regs [example_image, stripped_image]
     example_kregs 8 () = Inl (AssertFailed ''not found section: %s'')"
  by code_simp

lemma single_loop_step:
  "get_stacktrace_loop nf p lim n i regs mmu acc =
     (if Suc i < n
      then
        if fst (nf (m_debug p)
                (if m_type p = ET_DYN
                 then regs(ReturnAddress := regs ReturnAddress - m_load_addr p) else regs) mmu) \<and>
           fst lim \<le> fst (snd (nf (m_debug p)
                (if m_type p = ET_DYN
                 then regs(ReturnAddress := regs ReturnAddress - m_load_addr p) else regs) mmu))
                  ReturnAddress \<and>
           fst (snd (nf (m_debug p)
                (if m_type p = ET_DYN
                 then regs(ReturnAddress := regs ReturnAddress - m_load_addr p) else regs) mmu))
             ReturnAddress < snd lim
        then get_stacktrace_loop nf p lim n (Suc i)
             (fst (snd (nf (m_debug p)
                (if m_type p = ET_DYN
                 then regs(ReturnAddress := regs ReturnAddress - m_load_addr p) else regs) mmu)))
             (snd (snd (nf (m_debug p)
                (if m_type p = ET_DYN
                 then regs(ReturnAddress := regs ReturnAddress - m_load_addr p) else regs) mmu)))
             (acc @ [regs ReturnAddress])
        else acc @ [regs ReturnAddress]
      else acc @ [regs ReturnAddress])"
  by (subst get_stacktrace_loop.simps)
     (simp add: Let_def case_prod_beta split del: if_split cong: if_cong)

lemma single_loop_prefix:
  "\<exists>t. get_stacktrace_loop nf p lim n i regs mmu acc = acc @ regs ReturnAddress # t \<and>
        (\<not> Suc i < n \<longrightarrow> t = [])"
proof (induction "n - i" arbitrary: i regs mmu acc)
  case 0
  then have "\<not> Suc i < n" by simp
  then show ?case by (subst single_loop_step) (simp del: fun_upd_apply)
next
  case (Suc k)
  define r where "r = nf (m_debug p)
      (if m_type p = ET_DYN
       then regs(ReturnAddress := regs ReturnAddress - m_load_addr p) else regs) mmu"
  note step = single_loop_step [of nf p lim n i regs mmu acc, folded r_def]
  show ?case
  proof (cases "Suc i < n \<and> fst r \<and> fst lim \<le> fst (snd r) ReturnAddress \<and>
                fst (snd r) ReturnAddress < snd lim")
    case False
    then have "get_stacktrace_loop nf p lim n i regs mmu acc = acc @ [regs ReturnAddress]"
      by (subst step) auto
    then show ?thesis by simp
  next
    case True
    from Suc.hyps(2) True have k: "k = n - Suc i" by simp
    have "\<exists>t. get_stacktrace_loop nf p lim n (Suc i) (fst (snd r)) (snd (snd r))
          (acc @ [regs ReturnAddress]) =
          (acc @ [regs ReturnAddress]) @ fst (snd r) ReturnAddress # t \<and>
          (\<not> Suc (Suc i) < n \<longrightarrow> t = [])"
      by (rule Suc.hyps(1) [OF k])
    then obtain t where t: "get_stacktrace_loop nf p lim n (Suc i) (fst (snd r)) (snd (snd r))
          (acc @ [regs ReturnAddress]) =
          (acc @ [regs ReturnAddress]) @ fst (snd r) ReturnAddress # t"
      by blast
    have "get_stacktrace_loop nf p lim n i regs mmu acc =
          get_stacktrace_loop nf p lim n (Suc i) (fst (snd r)) (snd (snd r))
            (acc @ [regs ReturnAddress])"
      using True by (subst step) simp
    then have eq: "get_stacktrace_loop nf p lim n i regs mmu acc =
          acc @ regs ReturnAddress # (fst (snd r) ReturnAddress # t)"
      using t by simp
    from True have lt: "Suc i < n" by simp
    show ?thesis
      using eq lt by (intro exI [of _ "fst (snd r) ReturnAddress # t"]) simp
  qed
qed

text \<open>
  Claim C10, as amended. For every image that has a section named \<open>.text\<close>, the
  single-image \<open>get_stacktrace\<close> returns a trace whose first entry is the instruction
  pointer of the snapshot, for every register snapshot, memory reader and frame cap, a cap
  of 0 and an address outside the \<open>.text\<close> range included; with a cap of 0 the trace is
  that one entry, longer than the cap. The multi-image \<open>get_stacktrace\<close> returns the empty
  trace when every image has a \<open>.text\<close> section and no \<open>.text\<close> range holds the
  instruction pointer.
\<close>

theorem get_stacktrace_first_entry:
  "(has_text p \<longrightarrow>
      (\<exists>t. get_stacktrace nf regs0 p kregs n mmu = Inr t \<and> t \<noteq> [] \<and> hd t = rip kregs \<and>
           (n = 0 \<longrightarrow> t = [rip kregs] \<and> n < length t))) \<and>
   ((\<forall>elf \<in> set elfs. has_text elf) \<and> (\<forall>elf \<in> set elfs. \<not> text_contains elf (rip kregs)) \<longrightarrow>
      get_stacktrace_elfs nf' regs0 elfs kregs n mmu' = Inr [])"
proof (intro conjI impI)
  assume "has_text p"
  then obtain lim where lim: "section_limits p ''.text'' = Inr lim"
    using has_text_limits by blast
  obtain t where t: "get_stacktrace_loop nf p lim n 0 (kvm_to_dwarf_regs kregs regs0) mmu [] =
        [] @ kvm_to_dwarf_regs kregs regs0 ReturnAddress # t"
      and z: "\<not> Suc 0 < n \<longrightarrow> t = []"
    using single_loop_prefix [of nf p lim n 0 "kvm_to_dwarf_regs kregs regs0" mmu "[]"] by blast
  have "get_stacktrace nf regs0 p kregs n mmu = Inr (rip kregs # t)"
    using lim t by (simp add: get_stacktrace_def)
  with z show "\<exists>t. get_stacktrace nf regs0 p kregs n mmu = Inr t \<and> t \<noteq> [] \<and> hd t = rip kregs \<and>
           (n = 0 \<longrightarrow> t = [rip kregs] \<and> n < length t)"
    by auto
next
  assume a: "(\<forall>elf \<in> set elfs. has_text elf) \<and> (\<forall>elf \<in> set elfs. \<not> text_contains elf (rip kregs))"
  then have o: "text_owner elfs (rip kregs) = None"
    by (simp add: text_owner_None_iff)
  from a have h: "\<forall>elf \<in> set elfs. has_text elf" by simp
  show "get_stacktrace_elfs nf' regs0 elfs kregs n mmu' = Inr []"
    unfolding get_stacktrace_elfs_def
    using o by (subst elfs_loop_step [OF h]) simp
qed

theorem get_stacktrace_first_entry_witness:
  "has_text example_image \<and>
   (\<exists>t. get_stacktrace example_next_frame zero_regs example_image
          (example_kregs\<lparr>rip := 0x9000\<rparr>) 0 () = Inr t \<and>
        t \<noteq> [] \<and> hd t = 0x9000 \<and> t = [0x9000] \<and> 0 < length t) \<and>
   \<not> text_contains example_image 0x9000 \<and>
   get_stacktrace_elfs example_next_frame zero_regs [example_image]
     (example_kregs\<lparr>rip := 0x9000\<rparr>) 0 () = Inr []"
proof -
  have h1: "has_text example_image"
    by (rule has_text_example)
  have h2: "(\<forall>elf \<in> set [example_image]. has_text elf) \<and>
            (\<forall>elf \<in> set [example_image]. \<not> text_contains elf (rip (example_kregs\<lparr>rip := 0x9000\<rparr>)))"
    by code_simp
  have h3: "\<not> text_contains example_image 0x9000"
    by code_simp
  have r: "rip (example_kregs\<lparr>rip := 0x9000\<rparr>) = 0x9000" by simp
  show ?thesis
    using h1 h2 h3 r
      get_stacktrace_first_entry
        [of example_image example_next_frame zero_regs "example_kregs\<lparr>rip := 0x9000\<rparr>" 0 "()"
            "[example_image]" example_next_frame "()"]
    by auto
qed

text \<open>
  The claim as it was stated fails on an image without a \<open>.text\<close> section: the lookup
  of the \<open>.text\<close> range comes before the loop of the single-image walk, and before any
  entry is recorded the failed assertion ends it; the multi-image walk over such an image
  ends in the same failed assertion and not in the empty trace. On the example image the
  single-image walk with a cap of 0 from an address outside \<open>.text\<close> returns that address.
\<close>

theorem get_stacktrace_aborts_without_text:
  "init ''stripped'' stripped_file = Inr stripped_image \<and>
   get_stacktrace example_next_frame zero_regs stripped_image example_kregs 8 () =
     Inl (AssertFailed ''not found section: %s'') \<and>
   get_stacktrace_elfs example_next_frame zero_regs [stripped_image]
     (example_kregs\<lparr>rip := 0x9000\<rparr>) 8 () = Inl (AssertFailed ''not found section: %s'') \<and>
   get_stacktrace example_next_frame zero_regs example_image
     (example_kregs\<lparr>rip := 0x9000\<rparr>) 0 () = Inr [0x9000]"
  by code_simp

end
